theory Spec2Isabelle
  imports Complex_Main "HOL-Library.Word"
begin

section \<open>Data model\<close>

text \<open>
  The frontend receives transactions as JSON objects with the fields
  \<open>category\<close>, \<open>amount\<close>, \<open>description\<close> and \<open>date\<close>.
  The categories are the entries of the \<open>categories\<close> array of
  \<open>TransactionForm.js\<close>.  The amount is the decimal number written in
  the response; \<open>amountOf\<close> below is the number that the program reads
  from it.  A date is a string, \<open>YYYY-MM-DD\<close> when the backend wrote it;
  the program only compares it with the dates of the window, which are made of
  digits and hyphens.
\<close>

datatype category =
    Groceries
  | Transport
  | Eating_Out
  | Entertainment
  | Utilities
  | Healthcare
  | Education
  | Miscellaneous

record transaction =
  category :: category
  amount :: rat
  description :: string
  date :: string

section \<open>JavaScript numbers\<close>

text \<open>
  A number is a finite double, given by the rational it denotes, or one of
  \<open>NaN\<close>, \<open>Infinity\<close> and \<open>-Infinity\<close>.  The sign of a zero is
  not kept: the sums below start from \<open>+0\<close> and can never be \<open>-0\<close>.
\<close>

datatype jsnum = Num rat | NaN | PosInfinity | NegInfinity

text \<open>
  Rounding to the nearest double, ties to the even significand, as every
  arithmetic operation of the language does with its exact result.  For a
  positive fraction \<open>a / q\<close>, \<open>exponentOf\<close> is the exponent \<open>e\<close> with
  \<open>2^52 \<le> a / (q * 2^e) < 2^53\<close>, found from the numbers of binary digits of
  \<open>a\<close> and \<open>q\<close>; below \<open>-1074\<close> the exponent stays at \<open>-1074\<close>
  (subnormal numbers).  The significand \<open>m\<close> is \<open>a / (q * 2^e)\<close> rounded to
  an integer, and the result \<open>m * 2^e\<close> overflows to an infinity when it
  reaches \<open>2^1024\<close>, which \<open>overflows\<close> reads off \<open>m \<le> 2^53\<close> and
  \<open>e\<close>.
\<close>

function bitLength :: "int \<Rightarrow> int" where
  "bitLength n = (if n \<le> 0 then 0 else 1 + bitLength (n div 2))"
  by pat_completeness auto
termination
  by (relation "measure nat") auto

declare bitLength.simps [simp del]

definition pow2 :: "int \<Rightarrow> rat" where
  "pow2 e = (if 0 \<le> e then 2 ^ nat e else 1 / 2 ^ nat (- e))"

definition roundHalfEven :: "int \<Rightarrow> int \<Rightarrow> int" where
  "roundHalfEven n d =
     (let q = n div d; r = n mod d
      in if 2 * r < d then q
         else if d < 2 * r then q + 1
         else if even q then q else q + 1)"

definition scaled :: "int \<Rightarrow> int \<Rightarrow> int \<Rightarrow> int \<times> int" where
  "scaled a q e = (if 0 \<le> e then (a, q * 2 ^ nat e) else (a * 2 ^ nat (- e), q))"

definition exponentOf :: "int \<Rightarrow> int \<Rightarrow> int" where
  "exponentOf a q =
     (let e0 = bitLength a - bitLength q - 53
      in case scaled a q e0 of (n, d) \<Rightarrow> if 2 ^ 53 * d \<le> n then e0 + 1 else e0)"

definition roundParts :: "int \<Rightarrow> int \<Rightarrow> int \<times> int" where
  "roundParts a q =
     (let e = max (exponentOf a q) (- 1074)
      in case scaled a q e of (n, d) \<Rightarrow> (roundHalfEven n d, e))"

definition overflows :: "int \<Rightarrow> int \<Rightarrow> bool" where
  "overflows m e = (971 < e \<or> (e = 971 \<and> 2 ^ 53 \<le> m))"

definition roundDouble :: "rat \<Rightarrow> jsnum" where
  "roundDouble x =
     (case quotient_of x of
        (p, q) \<Rightarrow>
          if p = 0 then Num 0
          else case roundParts \<bar>p\<bar> q of
                 (m, e) \<Rightarrow>
                   if overflows m e then (if p < 0 then NegInfinity else PosInfinity)
                   else Num (of_int (if p < 0 then - m else m) * pow2 e))"

text \<open>
  \<open>t.amount\<close>: the double nearest to the decimal of the response, as
  \<open>JSON.parse\<close> reads it (an infinity beyond the range of the doubles).
\<close>

definition amountOf :: "transaction \<Rightarrow> jsnum" where
  "amountOf t = roundDouble (amount t)"

text \<open>The operators \<open>+\<close> and \<open>/\<close> on numbers.\<close>

fun fadd :: "jsnum \<Rightarrow> jsnum \<Rightarrow> jsnum" where
  "fadd NaN y = NaN"
| "fadd x NaN = NaN"
| "fadd PosInfinity NegInfinity = NaN"
| "fadd NegInfinity PosInfinity = NaN"
| "fadd PosInfinity y = PosInfinity"
| "fadd NegInfinity y = NegInfinity"
| "fadd x PosInfinity = PosInfinity"
| "fadd x NegInfinity = NegInfinity"
| "fadd (Num a) (Num b) = roundDouble (a + b)"

fun fdiv :: "jsnum \<Rightarrow> jsnum \<Rightarrow> jsnum" where
  "fdiv NaN y = NaN"
| "fdiv x NaN = NaN"
| "fdiv PosInfinity PosInfinity = NaN"
| "fdiv PosInfinity NegInfinity = NaN"
| "fdiv NegInfinity PosInfinity = NaN"
| "fdiv NegInfinity NegInfinity = NaN"
| "fdiv PosInfinity (Num b) = (if b < 0 then NegInfinity else PosInfinity)"
| "fdiv NegInfinity (Num b) = (if b < 0 then PosInfinity else NegInfinity)"
| "fdiv (Num a) PosInfinity = Num 0"
| "fdiv (Num a) NegInfinity = Num 0"
| "fdiv (Num a) (Num b) =
     (if b \<noteq> 0 then roundDouble (a / b)
      else if a = 0 then NaN
      else if 0 < a then PosInfinity else NegInfinity)"

section \<open>Objects\<close>

text \<open>
  A plain JavaScript object: the own properties in insertion order.
  \<open>obj_get\<close> is the property read \<open>acc[k]\<close> (\<open>None\<close> is
  \<open>undefined\<close>), \<open>obj_set\<close> the assignment \<open>acc[k] = v\<close>: an existing
  property keeps its position, a new one is added at the end.
\<close>

type_synonym 'k obj = "('k \<times> jsnum) list"

fun obj_get :: "('k \<times> 'v) list \<Rightarrow> 'k \<Rightarrow> 'v option" where
  "obj_get [] k = None"
| "obj_get ((k', v') # kvs) k = (if k' = k then Some v' else obj_get kvs k)"

fun obj_set :: "('k \<times> 'v) list \<Rightarrow> 'k \<Rightarrow> 'v \<Rightarrow> ('k \<times> 'v) list" where
  "obj_set [] k v = [(k, v)]"
| "obj_set ((k', v') # kvs) k v =
     (if k' = k then (k, v) # kvs else (k', v') # obj_set kvs k v)"

definition obj_keys :: "('k \<times> 'v) list \<Rightarrow> 'k list" where
  "obj_keys acc = map fst acc"

definition obj_values :: "('k \<times> 'v) list \<Rightarrow> 'v list" where
  "obj_values acc = map snd acc"

text \<open>
  \<open>!v\<close> for a property value: \<open>undefined\<close>, \<open>0\<close> and \<open>NaN\<close> are
  falsy.
\<close>

definition falsy :: "jsnum option \<Rightarrow> bool" where
  "falsy v = (case v of None \<Rightarrow> True | Some x \<Rightarrow> x = Num 0 \<or> x = NaN)"

section \<open>Category aggregation\<close>

text \<open>
  The callback of the \<open>reduce\<close> in \<open>processTransactionData\<close>:
  \<^verbatim>\<open>if (!acc[category]) { acc[category] = 0; }  acc[category] += amount;\<close>
  After the conditional the property exists, so the read inside \<open>+=\<close>
  finds a number; the last case is the read of a property that is absent,
  which the conditional excludes.
\<close>

definition groupStep :: "category obj \<Rightarrow> transaction \<Rightarrow> category obj" where
  "groupStep acc t =
     (let acc1 = (if falsy (obj_get acc (category t))
                  then obj_set acc (category t) (Num 0) else acc)
      in case obj_get acc1 (category t) of
           Some x \<Rightarrow> obj_set acc1 (category t) (fadd x (amountOf t))
         | None \<Rightarrow> acc1)"

definition groupByCategory :: "transaction list \<Rightarrow> category obj" where
  "groupByCategory transactionsData = foldl groupStep [] transactionsData"

text \<open>
  \<open>transactions.reduce((sum, t) => sum + t.amount, 0)\<close>, the total used by
  the summary cards and, after a filter, by the daily trend.
\<close>

definition sumAmounts :: "transaction list \<Rightarrow> jsnum" where
  "sumAmounts ts = foldl (\<lambda>sum t. fadd sum (amountOf t)) (Num 0) ts"

text \<open>
  The sum of a list of numbers, added up from 0 in the order of the list: for
  \<open>Object.values(byCategory)\<close> the sum of the totals of the categories.
\<close>

definition sumValues :: "jsnum list \<Rightarrow> jsnum" where
  "sumValues vs = foldl fadd (Num 0) vs"

text \<open>
  Two functions used in the proofs only: the rational that a number denotes
  (0 for the others), and the test for a whole number.
\<close>

fun numVal :: "jsnum \<Rightarrow> rat" where
  "numVal (Num x) = x"
| "numVal v = 0"

definition wholeNum :: "jsnum \<Rightarrow> bool" where
  "wholeNum v = (case v of Num x \<Rightarrow> x \<in> \<int> | _ \<Rightarrow> False)"

section \<open>Calendar days\<close>

text \<open>
  Days are counted from 1970-01-01.  \<open>civil_from_days\<close> is the proleptic
  Gregorian calendar that \<open>Date\<close> uses: from 1 January 1970 it walks by
  whole years to the year of the day, forwards or backwards, and then by whole
  months to the month.  \<open>toISODate\<close> is
  \<open>date.toISOString().slice(0, 10)\<close> for a time value on the given UTC
  day: four digits for the years 0 to 9999, a sign and six digits otherwise.
\<close>

definition leapYear :: "int \<Rightarrow> bool" where
  "leapYear y = (y mod 4 = 0 \<and> (y mod 100 \<noteq> 0 \<or> y mod 400 = 0))"

definition daysInYear :: "int \<Rightarrow> int" where
  "daysInYear y = (if leapYear y then 366 else 365)"

definition daysInMonth :: "int \<Rightarrow> int \<Rightarrow> int" where
  "daysInMonth y m =
     (if m = 2 then (if leapYear y then 29 else 28)
      else if m = 4 \<or> m = 6 \<or> m = 9 \<or> m = 11 then 30
      else 31)"

function yearOf :: "int \<Rightarrow> int \<Rightarrow> int \<times> int" where
  "yearOf y n =
     (if n < 0 then yearOf (y - 1) (n + daysInYear (y - 1))
      else if daysInYear y \<le> n then yearOf (y + 1) (n - daysInYear y)
      else (y, n))"
  by pat_completeness auto
termination
  by (relation "measure (\<lambda>(y, n). if n < 0 then nat (- n) + 366 else nat n)")
     (auto simp: daysInYear_def split: if_splits)

declare yearOf.simps [simp del]

function monthOf :: "int \<Rightarrow> int \<Rightarrow> int \<Rightarrow> int \<times> int" where
  "monthOf y m n =
     (if m < 12 \<and> daysInMonth y m \<le> n then monthOf y (m + 1) (n - daysInMonth y m)
      else (m, n))"
  by pat_completeness auto
termination
  by (relation "measure (\<lambda>(y, m, n). nat (12 - m))") auto

declare monthOf.simps [simp del]

definition civil_from_days :: "int \<Rightarrow> int \<times> int \<times> int" where
  "civil_from_days z =
     (case yearOf 1970 z of
        (y, n) \<Rightarrow> (case monthOf y 1 n of (m, r) \<Rightarrow> (y, m, r + 1)))"

definition digit :: "int \<Rightarrow> char" where
  "digit n = ''0123456789'' ! nat (n mod 10)"

fun padStart :: "nat \<Rightarrow> int \<Rightarrow> string" where
  "padStart 0 n = []"
| "padStart (Suc w) n = padStart w (n div 10) @ [digit n]"

definition yearString :: "int \<Rightarrow> string" where
  "yearString y =
     (if 0 \<le> y \<and> y \<le> 9999 then padStart 4 y
      else (if y < 0 then ''-'' else ''+'') @ padStart 6 \<bar>y\<bar>)"

definition toISODate :: "int \<Rightarrow> string" where
  "toISODate z =
     (case civil_from_days z of
        (y, m, d) \<Rightarrow> take 10 (yearString y @ ''-'' @ padStart 2 m @ ''-'' @ padStart 2 d))"




section \<open>The clock and the time zone\<close>

text \<open>
  \<open>new Date()\<close> holds a time value, the milliseconds since
  1970-01-01T00:00Z.  The time zone of the host enters through two functions:
  \<open>offsetAt t\<close> is the offset of local time from UTC at the instant \<open>t\<close>,
  and \<open>offsetOfLocal u\<close> is the offset that the host assigns to the local
  time \<open>u\<close>; around a change of the offset the two differ.  The time values
  are taken inside the range in which \<open>toISOString\<close> does not throw.
\<close>

record clock =
  now :: int
  offsetAt :: "int \<Rightarrow> int"
  offsetOfLocal :: "int \<Rightarrow> int"

definition msPerDay :: int where
  "msPerDay = 86400000"

definition localTime :: "clock \<Rightarrow> int \<Rightarrow> int" where
  "localTime c t = t + offsetAt c t"

definition utcOfLocal :: "clock \<Rightarrow> int \<Rightarrow> int" where
  "utcOfLocal c u = u - offsetOfLocal c u"

text \<open>
  \<^verbatim>\<open>const date = new Date(today); date.setDate(date.getDate() - i);\<close>
  The day of the month is read and set in local time, the time of the day is
  kept: the local time moves back by \<open>i\<close> whole days and is converted to a
  time value again.
\<close>

definition setDateBack :: "clock \<Rightarrow> nat \<Rightarrow> int" where
  "setDateBack c i = utcOfLocal c (localTime c (now c) - int i * msPerDay)"

text \<open>
  The UTC day of that time value, which \<open>toISOString\<close> renders, and the UTC
  day of the clock itself.
\<close>

definition windowDay :: "clock \<Rightarrow> nat \<Rightarrow> int" where
  "windowDay c i = setDateBack c i div msPerDay"

definition today :: "clock \<Rightarrow> int" where
  "today c = now c div msPerDay"

text \<open>
  The host's offset is steady over the window when each of the seven local
  times gets the offset in force now.
\<close>

definition steadyOffset :: "clock \<Rightarrow> bool" where
  "steadyOffset c =
     list_all (\<lambda>i. offsetOfLocal c (localTime c (now c) - int i * msPerDay) = offsetAt c (now c))
              [0..<7]"

section \<open>Daily trend\<close>

text \<open>
  \<^verbatim>\<open>new Array(7).fill(0).map((_, i) => ...).reverse()\<close>: the dates for
  \<open>i = 0, ..., 6\<close>, rendered, then reversed.
\<close>

definition last7Days :: "clock \<Rightarrow> string list" where
  "last7Days c = rev (map (\<lambda>i. toISODate (windowDay c i)) [0..<7])"

text \<open>
  \<^verbatim>\<open>transactionsData.filter(t => t.date === date).reduce((sum, t) => sum + t.amount, 0)\<close>
\<close>

definition dayTotal :: "transaction list \<Rightarrow> string \<Rightarrow> jsnum" where
  "dayTotal transactionsData d = sumAmounts (filter (\<lambda>t. date t = d) transactionsData)"

definition calcRecentTrends :: "clock \<Rightarrow> transaction list \<Rightarrow> (string \<times> jsnum) list" where
  "calcRecentTrends c transactionsData =
     map (\<lambda>d. (d, dayTotal transactionsData d)) (last7Days c)"

section \<open>The dashboard's summary state\<close>

text \<open>
  The React state \<open>summaryData\<close> with its initial value, and the response
  of the trends endpoint, whose \<open>daily_spending\<close> may be absent.
\<close>

record summaryData =
  byCategory :: "category obj"
  recentTrends :: "(string \<times> jsnum) list"

definition initialSummaryData :: summaryData where
  "initialSummaryData = \<lparr>byCategory = [], recentTrends = []\<rparr>"

record trendsData =
  daily_spending :: "(string \<times> jsnum) list option"

text \<open>
  \<open>processTransactionData\<close> of \<open>Dashboard.js\<close>.  It never reads the
  state; it either returns early (\<open>None\<close>) or calls
  \<open>setSummaryData\<close> once with the value returned here.  The clock is read
  by \<open>new Date()\<close> when the trend is computed.  The second argument is the
  array of the transactions response (the test \<open>!transactionsData\<close> is for a
  missing one, which a list is not); the argument \<open>trendsData\<close> is
  \<open>None\<close> for \<open>null\<close>.  An array, also an empty one, is truthy, so a
  present \<open>daily_spending\<close> is always used.
\<close>

definition processTransactionData ::
  "clock \<Rightarrow> transaction list \<Rightarrow> trendsData option \<Rightarrow> summaryData option" where
  "processTransactionData c transactionsData td =
     (if transactionsData = [] then None
      else Some \<lparr>byCategory = groupByCategory transactionsData,
                 recentTrends =
                   (case td of
                      None \<Rightarrow> calcRecentTrends c transactionsData
                    | Some r \<Rightarrow>
                        (case daily_spending r of
                           Some api \<Rightarrow> api
                         | None \<Rightarrow> calcRecentTrends c transactionsData))\<rparr>)"

text \<open>The state after the call: \<open>setSummaryData\<close> replaces it, an early return keeps it.\<close>

definition summaryAfter ::
  "clock \<Rightarrow> transaction list \<Rightarrow> trendsData option \<Rightarrow> summaryData \<Rightarrow> summaryData" where
  "summaryAfter c transactionsData td s =
     (case processTransactionData c transactionsData td of
        None \<Rightarrow> s
      | Some v \<Rightarrow> v)"

text \<open>
  The second copy of the component (\<open>src/unnamed/part_002\<close>) has neither the
  guard nor the trends argument: it always computes both parts and stores them.
\<close>

definition processTransactionData_part002 :: "clock \<Rightarrow> transaction list \<Rightarrow> summaryData" where
  "processTransactionData_part002 c transactionsData =
     \<lparr>byCategory = groupByCategory transactionsData,
      recentTrends = calcRecentTrends c transactionsData\<rparr>"

section \<open>Summary cards\<close>

text \<open>
  The card "Average Transaction":
  \<^verbatim>\<open>transactions.reduce((sum, t) => sum + t.amount, 0) / (transactions.length || 1)\<close>
  A division never raises: a zero divisor gives \<open>NaN\<close> or an infinity, which
  \<open>fdiv\<close> keeps apart from the numbers.  The formatting by \<open>toFixed(2)\<close>
  is left out.
\<close>

definition averageTransaction :: "transaction list \<Rightarrow> jsnum" where
  "averageTransaction transactions =
     fdiv (sumAmounts transactions)
          (Num (of_nat (if length transactions = 0 then 1 else length transactions)))"

section \<open>Retrying a request\<close>

text \<open>
  \<open>fetchWithRetry\<close> of \<open>Dashboard.js\<close> and \<open>SavingsPrediction.js\<close>.
  The answers of the server are given as a function of the attempt, counted from
  0: \<open>Inr\<close> a response, \<open>Inl\<close> the error that \<open>axios.get\<close> throws.
  The result is what the caller sees, with the list of the delays in
  milliseconds handed to \<open>setTimeout\<close>.  The loop ends without a
  \<open>return\<close> when \<open>maxRetries\<close> is 0; the function then returns
  \<open>undefined\<close>.
\<close>

datatype ('e, 'r) outcome = Returned 'r | Thrown 'e | ReturnedUndefined

function fetchLoop ::
  "(nat \<Rightarrow> 'e + 'r) \<Rightarrow> nat \<Rightarrow> nat \<Rightarrow> nat list \<Rightarrow> ('e, 'r) outcome \<times> nat list" where
  "fetchLoop get maxRetries retries waits =
     (if retries < maxRetries then
        (case get retries of
           Inr response \<Rightarrow> (Returned response, waits)
         | Inl err \<Rightarrow>
             (if retries + 1 = maxRetries then (Thrown err, waits)
              else fetchLoop get maxRetries (retries + 1) (waits @ [1000 * (retries + 1)])))
      else (ReturnedUndefined, waits))"
  by pat_completeness auto
termination
  by (relation "measure (\<lambda>(get, maxRetries, retries, waits). maxRetries - retries)") auto

declare fetchLoop.simps [simp del]

definition fetchWithRetry :: "(nat \<Rightarrow> 'e + 'r) \<Rightarrow> nat \<Rightarrow> ('e, 'r) outcome \<times> nat list" where
  "fetchWithRetry get maxRetries = fetchLoop get maxRetries 0 []"

text \<open>The default of the parameter, \<open>maxRetries = 3\<close>; no caller passes another value.\<close>

definition defaultMaxRetries :: nat where
  "defaultMaxRetries = 3"

section \<open>Profile form\<close>

text \<open>
  The form state of \<open>UserProfile.js\<close>.  \<open>handleChange\<close> stores
  \<open>parseInt(value, 10) || ''\<close>, so a numeric field holds an integer or the
  empty string (\<open>None\<close>); \<open>'' < 0\<close> is false.
\<close>

record profileForm =
  age :: "int option"
  dependents :: "int option"
  occupation :: string

record profileState =
  formData :: profileForm
  saving :: bool
  error :: "string option"
  success :: bool

text \<open>
  The three checks at the head of \<open>handleSubmit\<close>, in their order; the
  result is the message of the error thrown, if any.  \<open>!formData.age\<close> holds
  for the empty string and for 0.
\<close>

definition validationError :: "profileForm \<Rightarrow> string option" where
  "validationError f =
     (case age f of
        None \<Rightarrow> Some ''Please fill in all required fields''
      | Some a \<Rightarrow>
          if a = 0 \<or> occupation f = [] then Some ''Please fill in all required fields''
          else if a < 18 \<or> 100 < a then Some ''Age must be between 18 and 100''
          else if (case dependents f of None \<Rightarrow> False | Some n \<Rightarrow> n < 0)
               then Some ''Number of dependents cannot be negative''
          else None)"

text \<open>\<open>err.message || fallback\<close>\<close>

definition messageOr :: "string \<Rightarrow> string \<Rightarrow> string" where
  "messageOr msg fallback = (if msg = [] then fallback else msg)"

text \<open>
  \<open>handleSubmit\<close>.  The backend is not part of the sources: the request
  \<open>axios.post(.../profile, {user_id, age, dependents, occupation})\<close> is the
  parameter \<open>post\<close>, which maps the body and the backend's store to the
  message of a rejected request (if any) and the store afterwards.  The
  redirect to the dashboard after a success is not modelled.
\<close>

definition handleSubmit ::
  "(string \<times> profileForm \<Rightarrow> 'store \<Rightarrow> string option \<times> 'store) \<Rightarrow> string \<Rightarrow>
   profileState \<Rightarrow> 'store \<Rightarrow> profileState \<times> 'store" where
  "handleSubmit post userId st store =
     (let st1 = st\<lparr>saving := True, error := None\<rparr> in
      case validationError (formData st1) of
        Some msg \<Rightarrow>
          (st1\<lparr>error := Some (messageOr msg ''Failed to update profile. Please try again.''),
               saving := False\<rparr>, store)
      | None \<Rightarrow>
          (case post (userId, formData st1) store of
             (None, store') \<Rightarrow> (st1\<lparr>success := True, saving := False\<rparr>, store')
           | (Some msg, store') \<Rightarrow>
               (st1\<lparr>error := Some (messageOr msg ''Failed to update profile. Please try again.''),
                    saving := False\<rparr>, store')))"

section \<open>Quick entry\<close>

text \<open>
  A string of the program is the list of its UTF-16 code units.
  \<open>isSpace\<close> is the set that \<open>String.prototype.trim\<close> strips: the white
  space and the line terminators of the language (tab, line feed, vertical
  tab, form feed, carriage return, the space, the no-break space, the other
  space separators of Unicode, the line and the paragraph separator, and the
  byte order mark).
\<close>

type_synonym jsstring = "16 word list"

definition ofAscii :: "string \<Rightarrow> jsstring" where
  "ofAscii s = map of_char s"

definition isSpace :: "16 word \<Rightarrow> bool" where
  "isSpace c =
     (c \<in> set [0x09, 0x0A, 0x0B, 0x0C, 0x0D, 0x20, 0xA0, 0x1680, 0x2028, 0x2029, 0x202F,
               0x205F, 0x3000, 0xFEFF]
      \<or> (0x2000 \<le> c \<and> c \<le> 0x200A))"

definition trim :: "jsstring \<Rightarrow> jsstring" where
  "trim s = rev (dropWhile isSpace (rev (dropWhile isSpace s)))"

text \<open>
  The form state of \<open>TransactionForm.js\<close> (its fields carry a prefix, the
  names being those of a transaction), and the body of a successful parse
  response.
\<close>

record transactionForm =
  form_category :: "category option"
  form_amount :: "rat option"
  form_description :: jsstring
  form_date :: jsstring

record transactionFormState =
  txFormData :: transactionForm
  quickInput :: jsstring
  txError :: "string option"

record parsedTransaction =
  parsed_description :: jsstring
  parsed_amount :: rat
  parsed_category :: category

definition parseErrorMessage :: string where
  "parseErrorMessage =
     ''Could not parse transaction. Please use format: '' @ [CHR 0x22]
       @ ''Item amount category'' @ [CHR 0x22]"

text \<open>
  \<open>parseTransactionText\<close>: nothing happens when the trimmed input is the
  empty string; otherwise the text is posted to the parse endpoint (the
  parameter \<open>api\<close>), a response fills three fields of the form, and any
  error only sets the message.
\<close>

definition parseTransactionText ::
  "(jsstring \<Rightarrow> 'e + parsedTransaction) \<Rightarrow> transactionFormState \<Rightarrow> transactionFormState" where
  "parseTransactionText api st =
     (if trim (quickInput st) = [] then st
      else case api (quickInput st) of
             Inr response \<Rightarrow>
               st\<lparr>txFormData := (txFormData st)
                    \<lparr>form_description := parsed_description response,
                     form_amount := Some (parsed_amount response),
                     form_category := Some (parsed_category response)\<rparr>\<rparr>
           | Inl err \<Rightarrow> st\<lparr>txError := Some parseErrorMessage\<rparr>)"

text \<open>
  Modelled from the spec: the quick-entry parser behind
  \<open>POST /api/parse-transaction\<close>, whose code (the backend) is not part of
  the sources.  The text is split at white space, where the backend's notion
  of white space is the parameter \<open>ws\<close>; the amount is the number at the
  head of the first word that starts with a digit (a unit may follow it); the
  category is that of the last word found in the keyword table, which is a
  parameter; the description is made of the words before the amount.  The
  parser fails with \<open>ParseError\<close> when there is no word, no number or no
  keyword.
\<close>

datatype apiError = ParseError

fun splitWords :: "(16 word \<Rightarrow> bool) \<Rightarrow> jsstring \<Rightarrow> jsstring \<Rightarrow> jsstring list" where
  "splitWords ws cur [] = (if cur = [] then [] else [rev cur])"
| "splitWords ws cur (c # cs) =
     (if ws c then (if cur = [] then splitWords ws [] cs else rev cur # splitWords ws [] cs)
      else splitWords ws (c # cur) cs)"

definition isDigit :: "16 word \<Rightarrow> bool" where
  "isDigit c = (48 \<le> c \<and> c \<le> 57)"

definition digitValue :: "16 word \<Rightarrow> nat" where
  "digitValue c = unat c - 48"

definition leadingNumber :: "jsstring \<Rightarrow> nat option" where
  "leadingNumber w =
     (case takeWhile isDigit w of
        [] \<Rightarrow> None
      | ds \<Rightarrow> Some (foldl (\<lambda>n c. 10 * n + digitValue c) 0 ds))"

fun firstNumber :: "jsstring list \<Rightarrow> nat option" where
  "firstNumber [] = None"
| "firstNumber (w # ws) = (case leadingNumber w of Some n \<Rightarrow> Some n | None \<Rightarrow> firstNumber ws)"

fun lastKeyword :: "(jsstring \<times> category) list \<Rightarrow> jsstring list \<Rightarrow> category option" where
  "lastKeyword kw [] = None"
| "lastKeyword kw (w # ws) =
     (case lastKeyword kw ws of
        Some c \<Rightarrow> Some c
      | None \<Rightarrow> map_of kw w)"

fun unwords :: "jsstring list \<Rightarrow> jsstring" where
  "unwords [] = []"
| "unwords [w] = w"
| "unwords (w # ws) = w @ [0x20] @ unwords ws"

definition parse_transaction ::
  "(16 word \<Rightarrow> bool) \<Rightarrow> (jsstring \<times> category) list \<Rightarrow> jsstring \<Rightarrow> apiError + parsedTransaction" where
  "parse_transaction ws kw text =
     (let words = splitWords ws [] text in
      if words = [] then Inl ParseError
      else case firstNumber words of
             None \<Rightarrow> Inl ParseError
           | Some n \<Rightarrow>
               (case lastKeyword kw words of
                  None \<Rightarrow> Inl ParseError
                | Some c \<Rightarrow>
                    Inr \<lparr>parsed_description =
                           unwords (takeWhile (\<lambda>w. leadingNumber w = None) words),
                         parsed_amount = of_nat n,
                         parsed_category = c\<rparr>))"

section \<open>Savings prediction\<close>

text \<open>
  Modelled from the spec: the prediction engine behind
  \<open>GET /api/predict\<close>, whose code (the backend) is not part of the sources.
  Each category has a configured savings rate, a category without one gets the
  baseline rate; the potential savings are the expense times the rate, and the
  percentage is \<open>100 * savings / expense\<close>, or 0 when the expense is 0.
  The totals are the sums over the categories, with the same guarded
  percentage.
\<close>

record categoryPrediction =
  actual_expense :: rat
  potential_savings :: rat
  savings_percentage :: rat

record predictionTotals =
  total_actual_expenses :: rat
  total_potential_savings :: rat
  total_savings_percentage :: rat

definition savingsPercentage :: "rat \<Rightarrow> rat \<Rightarrow> rat" where
  "savingsPercentage savings expense = (if expense = 0 then 0 else 100 * savings / expense)"

definition rateOf :: "(category \<Rightarrow> rat option) \<Rightarrow> rat \<Rightarrow> category \<Rightarrow> rat" where
  "rateOf rates baseline c = (case rates c of Some r \<Rightarrow> r | None \<Rightarrow> baseline)"

definition predictCategory ::
  "(category \<Rightarrow> rat option) \<Rightarrow> rat \<Rightarrow> category \<Rightarrow> rat \<Rightarrow> categoryPrediction" where
  "predictCategory rates baseline c e =
     \<lparr>actual_expense = e,
      potential_savings = e * rateOf rates baseline c,
      savings_percentage = savingsPercentage (e * rateOf rates baseline c) e\<rparr>"

definition predictions ::
  "(category \<Rightarrow> rat option) \<Rightarrow> rat \<Rightarrow> (category \<times> rat) list \<Rightarrow> (category \<times> categoryPrediction) list" where
  "predictions rates baseline agg = map (\<lambda>(c, e). (c, predictCategory rates baseline c e)) agg"

definition totals ::
  "(category \<Rightarrow> rat option) \<Rightarrow> rat \<Rightarrow> (category \<times> rat) list \<Rightarrow> predictionTotals" where
  "totals rates baseline agg =
     (let expenses = sum_list (map (\<lambda>(c, p). actual_expense p) (predictions rates baseline agg));
          savings = sum_list (map (\<lambda>(c, p). potential_savings p) (predictions rates baseline agg))
      in \<lparr>total_actual_expenses = expenses,
          total_potential_savings = savings,
          total_savings_percentage = savingsPercentage savings expenses\<rparr>)"

text \<open>The configuration is valid when every rate lies in \<open>[0, 1]\<close>.\<close>

definition validRates :: "(category \<Rightarrow> rat option) \<Rightarrow> rat \<Rightarrow> bool" where
  "validRates rates baseline =
     list_all (\<lambda>c. 0 \<le> rateOf rates baseline c \<and> rateOf rates baseline c \<le> 1)
       [Groceries, Transport, Eating_Out, Entertainment, Utilities, Healthcare, Education,
        Miscellaneous]"

section \<open>Example data\<close>

text \<open>Three transactions around 2026-11-01 (day 20758), the last one dated two days later.\<close>

definition groceries_oct30 :: transaction where
  "groceries_oct30 =
     \<lparr>category = Groceries, amount = 100, description = ''Vegetables'', date = ''2026-10-30''\<rparr>"

definition samosa_nov01 :: transaction where
  "samosa_nov01 =
     \<lparr>category = Eating_Out, amount = 30, description = ''Samosa'', date = ''2026-11-01''\<rparr>"

definition course_nov03 :: transaction where
  "course_nov03 =
     \<lparr>category = Education, amount = 250, description = ''Course fee'', date = ''2026-11-03''\<rparr>"

text \<open>Three transactions with the amounts 0.1, 0.2 and 0.3.\<close>

definition tea_tenth :: transaction where
  "tea_tenth =
     \<lparr>category = Groceries, amount = 1 / 10, description = ''Tea'', date = ''2026-11-01''\<rparr>"

definition bus_fifth :: transaction where
  "bus_fifth =
     \<lparr>category = Transport, amount = 2 / 10, description = ''Bus'', date = ''2026-11-01''\<rparr>"

definition metro_three_tenths :: transaction where
  "metro_three_tenths =
     \<lparr>category = Transport, amount = 3 / 10, description = ''Metro'', date = ''2026-11-01''\<rparr>"

text \<open>
  A host in India (UTC+05:30 all year) at 2026-11-01T10:00Z, and a host in New
  York, where the offset changes from -05:00 to -04:00 on 2026-03-08 at
  07:00Z (02:00 local time), at 2026-03-09T12:00Z and at 2026-03-09T23:30Z.
  The last clock is a host on UTC at 2026-11-01T23:00Z.
\<close>

definition kolkataClock :: clock where
  "kolkataClock =
     \<lparr>now = 1793527200000, offsetAt = (\<lambda>t. 19800000), offsetOfLocal = (\<lambda>u. 19800000)\<rparr>"






definition exampleKeywords :: "(jsstring \<times> category) list" where
  "exampleKeywords = [(ofAscii ''food'', Eating_Out), (ofAscii ''medical'', Healthcare)]"

definition exampleFormState :: transactionFormState where
  "exampleFormState =
     \<lparr>txFormData = \<lparr>form_category = None, form_amount = None, form_description = [],
                     form_date = ofAscii ''2026-11-01''\<rparr>,
      quickInput = ofAscii ''Samosa food'',
      txError = None\<rparr>"

definition exampleRates :: "category \<Rightarrow> rat option" where
  "exampleRates c = (if c = Groceries then Some (1 / 5) else None)"

section \<open>Facts about the numbers\<close>

lemma bitLength_bounds:
  "0 < n \<Longrightarrow> 1 \<le> bitLength n \<and> 2 ^ nat (bitLength n - 1) \<le> n \<and> n < 2 ^ nat (bitLength n)"
proof (induction n rule: bitLength.induct)
  case (1 n)
  show ?case
  proof (cases "n = 1")
    case True
    have "bitLength 1 = 1 + bitLength 0"
      by (subst bitLength.simps) simp
    also have "bitLength 0 = 0"
      by (subst bitLength.simps) simp
    finally show ?thesis using True by simp
  next
    case False
    with "1.prems" have h: "0 < n div 2" by simp
    from "1.prems" have "\<not> n \<le> 0" by simp
    from "1.IH" [OF this h]
    have ih: "1 \<le> bitLength (n div 2)" "2 ^ nat (bitLength (n div 2) - 1) \<le> n div 2"
      "n div 2 < 2 ^ nat (bitLength (n div 2))"
      by simp_all
    have b: "bitLength n = 1 + bitLength (n div 2)"
      using "1.prems" by (subst bitLength.simps) simp
    have p: "(2::int) ^ nat (bitLength (n div 2)) = 2 * 2 ^ nat (bitLength (n div 2) - 1)"
      using ih(1) by (simp add: power_Suc [symmetric] Suc_nat_eq_nat_zadd1 del: power_Suc)
    have q: "(2::int) ^ nat (1 + bitLength (n div 2)) = 2 * 2 ^ nat (bitLength (n div 2))"
      using ih(1) by (simp add: power_Suc [symmetric] Suc_nat_eq_nat_zadd1 add.commute del: power_Suc)
    have "2 * (n div 2) \<le> n" "n \<le> 2 * (n div 2) + 1"
      by presburger+
    with ih p q show ?thesis
      unfolding b by simp
  qed
qed

lemma roundHalfEven_one: "roundHalfEven n 1 = n"
  by (simp add: roundHalfEven_def)

lemma roundParts_whole:
  assumes "0 < a" and "a < 2 ^ 53"
  shows "roundParts a 1 = (a * 2 ^ nat (53 - bitLength a), bitLength a - 53)
         \<and> bitLength a \<le> 53 \<and> 1 \<le> bitLength a"
proof -
  from bitLength_bounds [OF assms(1)]
  have b: "1 \<le> bitLength a" "2 ^ nat (bitLength a - 1) \<le> a" "a < 2 ^ nat (bitLength a)"
    by simp_all
  have "(2::int) ^ nat (bitLength a - 1) < 2 ^ 53"
    using b(2) assms(2) by simp
  then have "nat (bitLength a - 1) < 53"
    by (simp only: power_strict_increasing_iff [of "2::int"]) 
  then have le: "bitLength a \<le> 53"
    by simp
  have one: "bitLength 1 = 1"
  proof -
    have "bitLength 1 = 1 + bitLength 0"
      by (subst bitLength.simps) simp
    also have "bitLength 0 = 0"
      by (subst bitLength.simps) simp
    finally show ?thesis by simp
  qed
  have split: "(2::int) ^ 53 = 2 ^ nat (bitLength a - 1) * 2 ^ nat (54 - bitLength a)"
  proof -
    have "nat (bitLength a - 1) + nat (54 - bitLength a) = 53"
      using b(1) le by simp
    then show ?thesis
      by (simp only: power_add [symmetric])
  qed
  have ge: "(2::int) ^ 53 \<le> a * 2 ^ nat (54 - bitLength a)"
    unfolding split using b(2) by (intro mult_right_mono) simp_all
  have e: "exponentOf a 1 = bitLength a - 53"
    using le ge by (simp add: exponentOf_def scaled_def one Let_def)
  have "scaled a 1 (bitLength a - 53) = (a * 2 ^ nat (53 - bitLength a), 1)"
    using le by (cases "bitLength a = 53") (simp_all add: scaled_def)
  then show ?thesis
    using e le b(1) by (simp add: roundParts_def Let_def roundHalfEven_one max_def)
qed

lemma pow2_cancel: "k \<le> 53 \<Longrightarrow> of_int (a * 2 ^ nat (53 - k)) * pow2 (k - 53) = of_int a"
  by (cases "k = 53") (simp_all add: pow2_def)

lemma roundDouble_of_int:
  assumes "\<bar>n\<bar> < 2 ^ 53"
  shows "roundDouble (of_int n) = Num (of_int n)"
proof (cases "n = 0")
  case True
  then show ?thesis by (simp add: roundDouble_def)
next
  case False
  then have pos: "0 < \<bar>n\<bar>" by simp
  from roundParts_whole [OF pos assms]
  have rp: "roundParts \<bar>n\<bar> 1 = (\<bar>n\<bar> * 2 ^ nat (53 - bitLength \<bar>n\<bar>), bitLength \<bar>n\<bar> - 53)"
    and le: "bitLength \<bar>n\<bar> \<le> 53"
    by simp_all
  have no: "\<not> overflows (\<bar>n\<bar> * 2 ^ nat (53 - bitLength \<bar>n\<bar>)) (bitLength \<bar>n\<bar> - 53)"
    using le by (simp add: overflows_def)
  have neg: "- (\<bar>n\<bar> * 2 ^ nat (53 - bitLength \<bar>n\<bar>)) = (- \<bar>n\<bar>) * 2 ^ nat (53 - bitLength \<bar>n\<bar>)"
    by simp
  show ?thesis
  proof (cases "n < 0")
    case True
    then show ?thesis
      using False rp no pow2_cancel [OF le, of "- \<bar>n\<bar>"]
      by (simp add: roundDouble_def neg del: mult_minus_left of_int_mult of_int_minus)
  next
    case nn: False
    then show ?thesis
      using False rp no pow2_cancel [OF le, of "\<bar>n\<bar>"]
      by (simp add: roundDouble_def del: of_int_mult)
  qed
qed

lemma fadd_whole:
  "\<bar>a + b\<bar> < 2 ^ 53 \<Longrightarrow> fadd (Num (of_int a)) (Num (of_int b)) = Num (of_int (a + b))"
  using roundDouble_of_int [of "a + b"] by simp

section \<open>Facts about objects and the grouping step\<close>

lemma obj_get_set: "obj_get (obj_set acc k v) k' = (if k' = k then Some v else obj_get acc k')"
  by (induction acc) auto

lemma map_fst_obj_set:
  "map fst (obj_set acc k v) =
   (if k \<in> set (map fst acc) then map fst acc else map fst acc @ [k])"
  by (induction acc k v rule: obj_set.induct) (simp_all del: set_map)

lemma keys_obj_set: "fst ` set (obj_set acc k v) = insert k (fst ` set acc)"
proof -
  have "set (map fst (obj_set acc k v)) = insert k (set (map fst acc))"
    unfolding map_fst_obj_set by (auto simp del: set_map)
  then show ?thesis by simp
qed

lemma obj_get_None_iff: "obj_get acc k = None \<longleftrightarrow> k \<notin> fst ` set acc"
  by (induction acc k rule: obj_get.induct) simp_all

lemma distinct_obj_set:
  "distinct (map fst acc) \<Longrightarrow> distinct (map fst (obj_set acc k v))"
  by (simp add: map_fst_obj_set del: set_map)

lemma sum_obj_set:
  fixes g :: "'v \<Rightarrow> rat"
  shows "sum_list (map (\<lambda>kv. g (snd kv)) (obj_set acc k v)) =
   sum_list (map (\<lambda>kv. g (snd kv)) acc) - (case obj_get acc k of None \<Rightarrow> 0 | Some x \<Rightarrow> g x) + g v"
  by (induction acc) auto

lemma member_obj_set: "(a, b) \<in> set (obj_set acc k v) \<Longrightarrow> b = v \<or> (a, b) \<in> set acc"
  by (induction acc) (auto split: if_splits)

lemma values_obj_set: "snd ` set (obj_set acc k v) \<subseteq> insert v (snd ` set acc)"
  using member_obj_set [of _ _ acc k v] by force

lemma obj_get_value: "obj_get acc k = Some x \<Longrightarrow> x \<in> snd ` set acc"
  by (induction acc k rule: obj_get.induct) (auto split: if_splits)

lemma obj_get_abs_le:
  fixes g :: "'v \<Rightarrow> rat"
  shows "obj_get acc k = Some x \<Longrightarrow> \<bar>g x\<bar> \<le> sum_list (map (\<lambda>kv. \<bar>g (snd kv)\<bar>) acc)"
proof (induction acc k rule: obj_get.induct)
  case (1 k)
  then show ?case by simp
next
  case (2 k' v' kvs k)
  have "0 \<le> sum_list (map (\<lambda>kv. \<bar>g (snd kv)\<bar>) kvs)"
    by (intro sum_list_nonneg) auto
  with 2 show ?case
    by (auto split: if_splits)
qed

lemma obj_set_twice: "obj_set (obj_set acc k v) k w = obj_set acc k w"
  by (induction acc) auto

lemma obj_get_member: "(c, b) \<in> set acc \<Longrightarrow> \<exists>y. obj_get acc c = Some y"
  by (induction acc c rule: obj_get.induct) auto

lemma groupStep_eq:
  "groupStep acc t =
     obj_set acc (category t)
       (fadd (case obj_get acc (category t) of
                None \<Rightarrow> Num 0
              | Some x \<Rightarrow> if x = NaN then Num 0 else x)
             (amountOf t))"
proof (cases "obj_get acc (category t)")
  case None
  then show ?thesis
    by (simp add: groupStep_def falsy_def obj_get_set obj_set_twice)
next
  case (Some x)
  then show ?thesis
    by (auto simp: groupStep_def falsy_def obj_get_set obj_set_twice)
qed

lemma groupStep_get:
  "obj_get (groupStep acc t) c =
     (if c = category t
      then Some (fadd (case obj_get acc c of
                         None \<Rightarrow> Num 0
                       | Some x \<Rightarrow> if x = NaN then Num 0 else x)
                      (amountOf t))
      else obj_get acc c)"
  by (simp add: groupStep_eq obj_get_set)

lemma groupStep_keys:
  "fst ` set (groupStep acc t) = insert (category t) (fst ` set acc)"
  by (simp add: groupStep_eq keys_obj_set)

lemma groupStep_distinct:
  "distinct (map fst acc) \<Longrightarrow> distinct (map fst (groupStep acc t))"
  unfolding groupStep_eq by (rule distinct_obj_set)

lemma foldl_groupStep_keys:
  "fst ` set (foldl groupStep acc ts) = fst ` set acc \<union> category ` set ts"
  by (induction ts arbitrary: acc) (simp_all add: groupStep_keys)

lemma foldl_groupStep_distinct:
  "distinct (map fst acc) \<Longrightarrow> distinct (map fst (foldl groupStep acc ts))"
  by (induction ts arbitrary: acc) (simp_all add: groupStep_distinct)

lemma filter_category_empty:
  "c \<notin> category ` set ts \<Longrightarrow> filter (\<lambda>t. category t = c) ts = []"
  by (induction ts) auto

lemma foldl_groupStep_get:
  "obj_get (foldl groupStep acc ts) c =
     (if c \<in> category ` set ts
      then Some (foldl (\<lambda>v a. fadd (if v = NaN then Num 0 else v) a)
                   (case obj_get acc c of None \<Rightarrow> Num 0 | Some x \<Rightarrow> x)
                   (map amountOf (filter (\<lambda>t. category t = c) ts)))
      else obj_get acc c)"
proof (induction ts arbitrary: acc)
  case Nil
  then show ?case by simp
next
  case (Cons t ts)
  let ?step = "\<lambda>v a. fadd (if v = NaN then Num 0 else v) a"
  have "obj_get (foldl groupStep acc (t # ts)) c
        = obj_get (foldl groupStep (groupStep acc t) ts) c"
    by simp
  also have "\<dots> = (if c \<in> category ` set ts
      then Some (foldl ?step
                   (case obj_get (groupStep acc t) c of None \<Rightarrow> Num 0 | Some x \<Rightarrow> x)
                   (map amountOf (filter (\<lambda>t. category t = c) ts)))
      else obj_get (groupStep acc t) c)"
    by (rule Cons.IH)
  also have "\<dots> = (if c \<in> category ` set (t # ts)
      then Some (foldl ?step
                   (case obj_get acc c of None \<Rightarrow> Num 0 | Some x \<Rightarrow> x)
                   (map amountOf (filter (\<lambda>t. category t = c) (t # ts))))
      else obj_get acc c)"
  proof (cases "c = category t")
    case True
    show ?thesis
      unfolding True
      by (cases "obj_get acc (category t)")
         (simp_all add: groupStep_get filter_category_empty)
  next
    case False
    then have "filter (\<lambda>t. category t = c) (t # ts) = filter (\<lambda>t. category t = c) ts"
      by auto
    with False show ?thesis
      by (auto simp: groupStep_get)
  qed
  finally show ?case .
qed

lemma groupByCategory_get:
  "obj_get (groupByCategory T) c =
     (if c \<in> category ` set T
      then Some (foldl (\<lambda>v a. fadd (if v = NaN then Num 0 else v) a) (Num 0)
                   (map amountOf (filter (\<lambda>t. category t = c) T)))
      else None)"
  by (simp add: groupByCategory_def foldl_groupStep_get)

lemma sumAmounts_foldl: "sumAmounts ts = foldl fadd (Num 0) (map amountOf ts)"
  by (simp add: sumAmounts_def foldl_map)

lemma sumAmounts_append:
  "sumAmounts (xs @ ys) = foldl (\<lambda>sum t. fadd sum (amountOf t)) (sumAmounts xs) ys"
  by (simp add: sumAmounts_def)

subsection \<open>Whole amounts below \<open>2^53\<close>: every addition is exact\<close>

lemma roundDouble_Ints:
  assumes "x \<in> \<int>" and "\<bar>x\<bar> < 2 ^ 53"
  shows "roundDouble x = Num x"
proof -
  from assms(1) obtain n where n: "x = of_int n"
    by (auto elim: Ints_cases)
  with assms(2) have "(of_int \<bar>n\<bar> :: rat) < of_int (2 ^ 53)"
    by simp
  then have "\<bar>n\<bar> < 2 ^ 53"
    by (simp only: of_int_less_iff)
  then show ?thesis
    unfolding n by (rule roundDouble_of_int)
qed

lemma fadd_Ints:
  "a \<in> \<int> \<Longrightarrow> b \<in> \<int> \<Longrightarrow> \<bar>a + b\<bar> < 2 ^ 53 \<Longrightarrow> fadd (Num a) (Num b) = Num (a + b)"
  by (simp add: roundDouble_Ints)

lemma wholeNum_iff: "wholeNum v \<longleftrightarrow> (\<exists>x\<in>\<int>. v = Num x)"
  by (cases v) (auto simp: wholeNum_def)

lemma wholeNum_Num: "wholeNum v \<Longrightarrow> v = Num (numVal v) \<and> numVal v \<in> \<int>"
  by (cases v) (auto simp: wholeNum_def)

lemma foldl_fadd_whole:
  assumes "s \<in> \<int>" and "\<forall>v\<in>set vs. wholeNum v"
    and "\<bar>s\<bar> + sum_list (map (\<lambda>v. \<bar>numVal v\<bar>) vs) < 2 ^ 53"
  shows "foldl fadd (Num s) vs = Num (s + sum_list (map numVal vs))"
  using assms
proof (induction vs arbitrary: s)
  case Nil
  then show ?case by simp
next
  case (Cons v vs)
  from Cons.prems(2) obtain x where x: "v = Num x" "x \<in> \<int>"
    by (auto simp: wholeNum_iff)
  have nn: "0 \<le> sum_list (map (\<lambda>v. \<bar>numVal v\<bar>) vs)"
    by (intro sum_list_nonneg) auto
  have b: "\<bar>s + x\<bar> + sum_list (map (\<lambda>v. \<bar>numVal v\<bar>) vs) < 2 ^ 53"
    using Cons.prems(3) x abs_triangle_ineq [of s x] by simp
  with nn have "\<bar>s + x\<bar> < 2 ^ 53"
    by linarith
  with Cons.prems(1) x have step: "fadd (Num s) v = Num (s + x)"
    by (simp add: fadd_Ints del: fadd.simps)
  have "s + x \<in> \<int>"
    using Cons.prems(1) x by simp
  from Cons.IH [OF this _ b] Cons.prems(2)
  have "foldl fadd (Num (s + x)) vs = Num (s + x + sum_list (map numVal vs))"
    by simp
  with step x show ?case
    by (simp add: add.assoc del: fadd.simps)
qed

lemma amountOf_whole:
  "amount t \<in> \<int> \<Longrightarrow> \<bar>amount t\<bar> < 2 ^ 53 \<Longrightarrow> amountOf t = Num (amount t)"
  by (simp add: amountOf_def roundDouble_Ints)

lemma abs_le_sum_list:
  fixes f :: "'a \<Rightarrow> rat"
  shows "t \<in> set ts \<Longrightarrow> \<bar>f t\<bar> \<le> sum_list (map (\<lambda>t. \<bar>f t\<bar>) ts)"
proof (induction ts)
  case Nil
  then show ?case by simp
next
  case (Cons a ts)
  have "0 \<le> sum_list (map (\<lambda>t. \<bar>f t\<bar>) ts)"
    by (intro sum_list_nonneg) auto
  with Cons show ?case by auto
qed

lemma sumAmounts_whole:
  assumes "\<forall>t\<in>set T. amount t \<in> \<int>" and "sum_list (map (\<lambda>t. \<bar>amount t\<bar>) T) < 2 ^ 53"
  shows "sumAmounts T = Num (sum_list (map amount T))"
proof -
  have each: "amountOf t = Num (amount t)" if "t \<in> set T" for t
  proof -
    from abs_le_sum_list [OF that, of amount] assms(2) have "\<bar>amount t\<bar> < 2 ^ 53"
      by linarith
    with assms(1) that show ?thesis
      by (simp add: amountOf_whole)
  qed
  then have m: "map amountOf T = map (\<lambda>t. Num (amount t)) T"
    by simp
  have "foldl fadd (Num 0) (map (\<lambda>t. Num (amount t)) T)
        = Num (0 + sum_list (map numVal (map (\<lambda>t. Num (amount t)) T)))"
    using assms by (intro foldl_fadd_whole) (simp_all add: wholeNum_def comp_def)
  then show ?thesis
    by (simp add: sumAmounts_foldl m comp_def)
qed

lemma groupStep_whole:
  assumes "\<forall>v\<in>snd ` set acc. wholeNum v" and "amount t \<in> \<int>"
    and "sum_list (map (\<lambda>kv. \<bar>numVal (snd kv)\<bar>) acc) + \<bar>amount t\<bar> < 2 ^ 53"
  shows "(\<forall>v\<in>snd ` set (groupStep acc t). wholeNum v)
         \<and> sum_list (map (\<lambda>kv. \<bar>numVal (snd kv)\<bar>) (groupStep acc t))
             \<le> sum_list (map (\<lambda>kv. \<bar>numVal (snd kv)\<bar>) acc) + \<bar>amount t\<bar>
         \<and> sum_list (map (\<lambda>kv. numVal (snd kv)) (groupStep acc t))
             = sum_list (map (\<lambda>kv. numVal (snd kv)) acc) + amount t"
proof -
  let ?B = "sum_list (map (\<lambda>kv. \<bar>numVal (snd kv)\<bar>) acc)"
  have nn: "0 \<le> ?B"
    by (intro sum_list_nonneg) auto
  define x0 where "x0 = (case obj_get acc (category t) of None \<Rightarrow> 0 | Some v \<Rightarrow> numVal v)"
  have x0: "x0 \<in> \<int>" "\<bar>x0\<bar> \<le> ?B"
    "(case obj_get acc (category t) of None \<Rightarrow> Num 0 | Some x \<Rightarrow> if x = NaN then Num 0 else x)
       = Num x0"
  proof -
    show "x0 \<in> \<int>"
      using assms(1) obj_get_value [of acc "category t"] wholeNum_Num
      by (auto simp: x0_def split: option.splits)
    show "\<bar>x0\<bar> \<le> ?B"
      using nn obj_get_abs_le [of acc "category t" _ numVal]
      by (auto simp: x0_def split: option.splits)
    show "(case obj_get acc (category t) of None \<Rightarrow> Num 0
             | Some x \<Rightarrow> if x = NaN then Num 0 else x) = Num x0"
      using assms(1) obj_get_value [of acc "category t"] wholeNum_Num
      by (fastforce simp: x0_def split: option.splits)
  qed
  have small: "\<bar>amount t\<bar> < 2 ^ 53" "\<bar>x0 + amount t\<bar> < 2 ^ 53"
    using assms(3) nn x0(2) by linarith+
  have eq: "groupStep acc t = obj_set acc (category t) (Num (x0 + amount t))"
    using x0(1) assms(2) small
    by (simp add: groupStep_eq x0(3) amountOf_whole fadd_Ints del: fadd.simps)
  have w: "wholeNum (Num (x0 + amount t))"
    using x0(1) assms(2) by (simp add: wholeNum_def)
  have a: "\<forall>v\<in>snd ` set (groupStep acc t). wholeNum v"
  proof
    fix v
    assume "v \<in> snd ` set (groupStep acc t)"
    then obtain k where "(k, v) \<in> set (obj_set acc (category t) (Num (x0 + amount t)))"
      unfolding eq by auto
    from member_obj_set [OF this] have "v = Num (x0 + amount t) \<or> (k, v) \<in> set acc" .
    then show "wholeNum v"
      using w assms(1) by force
  qed
  have old_abs: "(case obj_get acc (category t) of None \<Rightarrow> 0 | Some x \<Rightarrow> \<bar>numVal x\<bar>) = \<bar>x0\<bar>"
    by (simp add: x0_def split: option.splits)
  have old: "(case obj_get acc (category t) of None \<Rightarrow> 0 | Some x \<Rightarrow> numVal x) = x0"
    by (simp add: x0_def)
  have b: "sum_list (map (\<lambda>kv. \<bar>numVal (snd kv)\<bar>) (groupStep acc t)) \<le> ?B + \<bar>amount t\<bar>"
    unfolding eq sum_obj_set [of "\<lambda>v. \<bar>numVal v\<bar>"] old_abs by simp
  have c: "sum_list (map (\<lambda>kv. numVal (snd kv)) (groupStep acc t))
             = sum_list (map (\<lambda>kv. numVal (snd kv)) acc) + amount t"
    unfolding eq sum_obj_set [of numVal] old by simp
  from a b c show ?thesis by blast
qed

lemma foldl_groupStep_whole:
  assumes "\<forall>v\<in>snd ` set acc. wholeNum v" and "\<forall>t\<in>set ts. amount t \<in> \<int>"
    and "sum_list (map (\<lambda>kv. \<bar>numVal (snd kv)\<bar>) acc) + sum_list (map (\<lambda>t. \<bar>amount t\<bar>) ts) < 2 ^ 53"
  shows "(\<forall>v\<in>snd ` set (foldl groupStep acc ts). wholeNum v)
         \<and> sum_list (map (\<lambda>kv. \<bar>numVal (snd kv)\<bar>) (foldl groupStep acc ts))
             \<le> sum_list (map (\<lambda>kv. \<bar>numVal (snd kv)\<bar>) acc) + sum_list (map (\<lambda>t. \<bar>amount t\<bar>) ts)
         \<and> sum_list (map (\<lambda>kv. numVal (snd kv)) (foldl groupStep acc ts))
             = sum_list (map (\<lambda>kv. numVal (snd kv)) acc) + sum_list (map amount ts)"
  using assms
proof (induction ts arbitrary: acc)
  case Nil
  then show ?case by simp
next
  case (Cons t ts)
  have nn: "0 \<le> sum_list (map (\<lambda>t. \<bar>amount t\<bar>) ts)"
    by (intro sum_list_nonneg) auto
  have "sum_list (map (\<lambda>kv. \<bar>numVal (snd kv)\<bar>) acc) + \<bar>amount t\<bar> < 2 ^ 53"
    using Cons.prems(3) nn by simp
  from groupStep_whole [OF Cons.prems(1) _ this] Cons.prems(2)
  have step: "\<forall>v\<in>snd ` set (groupStep acc t). wholeNum v"
    "sum_list (map (\<lambda>kv. \<bar>numVal (snd kv)\<bar>) (groupStep acc t))
       \<le> sum_list (map (\<lambda>kv. \<bar>numVal (snd kv)\<bar>) acc) + \<bar>amount t\<bar>"
    "sum_list (map (\<lambda>kv. numVal (snd kv)) (groupStep acc t))
       = sum_list (map (\<lambda>kv. numVal (snd kv)) acc) + amount t"
    by simp_all
  have rest: "\<forall>t\<in>set ts. amount t \<in> \<int>"
    using Cons.prems(2) by simp
  have bound: "sum_list (map (\<lambda>kv. \<bar>numVal (snd kv)\<bar>) (groupStep acc t))
                 + sum_list (map (\<lambda>t. \<bar>amount t\<bar>) ts) < 2 ^ 53"
    using step(2) Cons.prems(3) by simp
  from Cons.IH [OF step(1) rest bound] step(2) step(3) show ?case
    by simp
qed

lemma sumValues_groupByCategory_whole:
  assumes "\<forall>t\<in>set T. amount t \<in> \<int>" and "sum_list (map (\<lambda>t. \<bar>amount t\<bar>) T) < 2 ^ 53"
  shows "sumValues (obj_values (groupByCategory T)) = Num (sum_list (map amount T))"
proof -
  let ?acc = "groupByCategory T"
  from foldl_groupStep_whole [of "[]" T] assms
  have inv: "\<forall>v\<in>snd ` set ?acc. wholeNum v"
    "sum_list (map (\<lambda>kv. \<bar>numVal (snd kv)\<bar>) ?acc) \<le> sum_list (map (\<lambda>t. \<bar>amount t\<bar>) T)"
    "sum_list (map (\<lambda>kv. numVal (snd kv)) ?acc) = sum_list (map amount T)"
    by (simp_all add: groupByCategory_def)
  have "foldl fadd (Num 0) (map snd ?acc) = Num (0 + sum_list (map numVal (map snd ?acc)))"
    using inv(1) inv(2) assms(2) by (intro foldl_fadd_whole) (simp_all add: comp_def)
  with inv(3) show ?thesis
    by (simp add: sumValues_def obj_values_def comp_def)
qed

lemma foldl_reset_whole:
  assumes "s \<in> \<int>" and "\<forall>x\<in>set xs. x \<in> \<int>"
    and "\<bar>s\<bar> + sum_list (map abs xs) < 2 ^ 53"
  shows "foldl (\<lambda>v a. fadd (if v = NaN then Num 0 else v) a) (Num s) (map Num xs)
         = Num (s + sum_list xs)"
  using assms
proof (induction xs arbitrary: s)
  case Nil
  then show ?case by simp
next
  case (Cons x xs)
  have nn: "0 \<le> sum_list (map abs xs)"
    by (intro sum_list_nonneg) auto
  have b: "\<bar>s + x\<bar> + sum_list (map abs xs) < 2 ^ 53"
    using Cons.prems(3) abs_triangle_ineq [of s x] by simp
  with nn have "\<bar>s + x\<bar> < 2 ^ 53"
    by linarith
  with Cons.prems have step: "fadd (Num s) (Num x) = Num (s + x)"
    by (simp add: fadd_Ints del: fadd.simps)
  have "s + x \<in> \<int>"
    using Cons.prems by simp
  from Cons.IH [OF this _ b] Cons.prems(2) step show ?case
    by (simp add: add.assoc del: fadd.simps)
qed

lemma sum_abs_filter_le:
  fixes f :: "'a \<Rightarrow> rat"
  shows "sum_list (map (\<lambda>t. \<bar>f t\<bar>) (filter P ts)) \<le> sum_list (map (\<lambda>t. \<bar>f t\<bar>) ts)"
  by (induction ts) auto

lemma category_total_whole:
  assumes "\<forall>t\<in>set T. amount t \<in> \<int>" and "sum_list (map (\<lambda>t. \<bar>amount t\<bar>) T) < 2 ^ 53"
  shows "foldl (\<lambda>v a. fadd (if v = NaN then Num 0 else v) a) (Num 0)
           (map amountOf (filter P T))
         = Num (sum_list (map amount (filter P T)))"
proof -
  have each: "amountOf t = Num (amount t)" if "t \<in> set T" for t
  proof -
    from abs_le_sum_list [OF that, of amount] assms(2) have "\<bar>amount t\<bar> < 2 ^ 53"
      by linarith
    with assms(1) that show ?thesis
      by (simp add: amountOf_whole)
  qed
  then have m: "map amountOf (filter P T) = map Num (map amount (filter P T))"
    by simp
  have "sum_list (map abs (map amount (filter P T))) < 2 ^ 53"
    using sum_abs_filter_le [of amount P T] assms(2) by (simp add: comp_def)
  then have "foldl (\<lambda>v a. fadd (if v = NaN then Num 0 else v) a) (Num 0)
           (map Num (map amount (filter P T)))
         = Num (0 + sum_list (map amount (filter P T)))"
    using assms(1) by (intro foldl_reset_whole) simp_all
  then show ?thesis
    by (simp add: m)
qed

section \<open>Facts about the calendar\<close>




















section \<open>Facts about the daily trend\<close>

lemma upt7: "[0..<7] = [0, 1, 2, 3, 4, 5, 6]"
  by (simp add: upt_rec)

lemma last7Days_window:
  "last7Days c = map (\<lambda>i. toISODate (windowDay c i)) [6, 5, 4, 3, 2, 1, 0]"
  by (simp add: last7Days_def upt7)

lemma div_days: "(a - int i * msPerDay) div msPerDay = a div msPerDay - int i"
proof -
  have "a - int i * msPerDay = a + (- int i) * msPerDay"
    by simp
  moreover have "(a + (- int i) * msPerDay) div msPerDay = - int i + a div msPerDay"
    by (simp add: msPerDay_def)
  ultimately show ?thesis by simp
qed

lemma windowDay_steady:
  assumes "steadyOffset c" and "i < 7"
  shows "windowDay c i = today c - int i"
proof -
  from assms have "offsetOfLocal c (localTime c (now c) - int i * msPerDay) = offsetAt c (now c)"
    by (simp add: steadyOffset_def list_all_iff)
  then have "setDateBack c i = now c - int i * msPerDay"
    by (simp add: setDateBack_def utcOfLocal_def localTime_def)
  then show ?thesis
    by (simp add: windowDay_def today_def div_days)
qed







lemma summaryAfter_empty: "summaryAfter c [] td s = s"
  by (simp add: summaryAfter_def processTransactionData_def)

lemma calcRecentTrends_window:
  "calcRecentTrends c T =
   map (\<lambda>i. (toISODate (windowDay c i),
              foldl (\<lambda>sum t. fadd sum (amountOf t)) (Num 0)
                    (filter (\<lambda>t. date t = toISODate (windowDay c i)) T)))
       [6, 5, 4, 3, 2, 1, 0]"
  by (simp add: calcRecentTrends_def last7Days_window dayTotal_def sumAmounts_def)


lemma kolkata_week:
  "steadyOffset kolkataClock"
  "today kolkataClock = 20758"
  "map toISODate [20752, 20753, 20754, 20755, 20756, 20757, 20758, 20759, 20760]
   = [''2026-10-26'', ''2026-10-27'', ''2026-10-28'', ''2026-10-29'', ''2026-10-30'',
      ''2026-10-31'', ''2026-11-01'', ''2026-11-02'', ''2026-11-03'']"
  by code_simp+



section \<open>Facts about the retry loop\<close>

lemma fetchLoop_success:
  assumes "retries + k < maxRetries" and "\<forall>j<k. isl (get (retries + j))"
    and "get (retries + k) = Inr r"
  shows "fetchLoop get maxRetries retries waits
         = (Returned r, waits @ map (\<lambda>n. 1000 * n) [retries + 1 ..< retries + k + 1])"
  using assms
proof (induction k arbitrary: retries waits)
  case 0
  then show ?case by (simp add: fetchLoop.simps [of get maxRetries retries])
next
  case (Suc k)
  from Suc.prems(2) have "isl (get (retries + 0))" by blast
  then obtain e where e: "get retries = Inl e" by (cases "get retries") auto
  have step: "fetchLoop get maxRetries retries waits
        = fetchLoop get maxRetries (retries + 1) (waits @ [1000 * (retries + 1)])"
    using Suc.prems(1) e by (simp add: fetchLoop.simps [of get maxRetries retries])
  have a: "retries + 1 + k < maxRetries" and c: "get (retries + 1 + k) = Inr r"
    using Suc.prems by simp_all
  have b: "\<forall>j<k. isl (get (retries + 1 + j))"
  proof (intro allI impI)
    fix j assume "j < k"
    then have "Suc j < Suc k" by simp
    with Suc.prems(2) have "isl (get (retries + Suc j))" by blast
    then show "isl (get (retries + 1 + j))" by simp
  qed
  have "fetchLoop get maxRetries (retries + 1) (waits @ [1000 * (retries + 1)])
      = (Returned r, (waits @ [1000 * (retries + 1)])
            @ map (\<lambda>n. 1000 * n) [retries + 1 + 1 ..< retries + 1 + k + 1])"
    using a b c by (rule Suc.IH)
  with step show ?case
    by (simp add: upt_rec [of "Suc retries"])
qed

lemma fetchLoop_failure:
  assumes "retries < maxRetries" and "\<forall>j. retries \<le> j \<and> j < maxRetries \<longrightarrow> isl (get j)"
  shows "fetchLoop get maxRetries retries waits
         = (Thrown (projl (get (maxRetries - 1))),
            waits @ map (\<lambda>n. 1000 * n) [retries + 1 ..< maxRetries])"
  using assms
proof (induction "maxRetries - retries" arbitrary: retries waits)
  case 0
  then show ?case by simp
next
  case (Suc d)
  from Suc.prems have "isl (get retries)" by simp
  then obtain e where e: "get retries = Inl e" by (cases "get retries") auto
  show ?case
  proof (cases "retries + 1 = maxRetries")
    case True
    then have "maxRetries - 1 = retries" by simp
    with True e Suc.prems(1) show ?thesis
      by (simp add: fetchLoop.simps [of get maxRetries retries])
  next
    case False
    with Suc.prems(1) have lt: "retries + 1 < maxRetries" by simp
    have step: "fetchLoop get maxRetries retries waits
        = fetchLoop get maxRetries (retries + 1) (waits @ [1000 * (retries + 1)])"
      using Suc.prems(1) e False by (simp add: fetchLoop.simps [of get maxRetries retries])
    have d: "d = maxRetries - (retries + 1)" using Suc.hyps(2) by simp
    have rest: "\<forall>j. retries + 1 \<le> j \<and> j < maxRetries \<longrightarrow> isl (get j)"
      using Suc.prems(2) by simp
    have "fetchLoop get maxRetries (retries + 1) (waits @ [1000 * (retries + 1)])
      = (Thrown (projl (get (maxRetries - 1))),
         (waits @ [1000 * (retries + 1)]) @ map (\<lambda>n. 1000 * n) [retries + 1 + 1 ..< maxRetries])"
      using d lt rest by (rule Suc.hyps(1))
    with step lt show ?thesis
      by (simp add: upt_rec [of "Suc retries"])
  qed
qed

section \<open>Facts about the forms, the parser and the prediction\<close>

lemma validationError_Some:
  assumes "age f = None \<or> (\<exists>a. age f = Some a \<and> (a < 18 \<or> 100 < a))
           \<or> (\<exists>n. dependents f = Some n \<and> n < 0) \<or> occupation f = []"
  shows "\<exists>msg. validationError f = Some msg \<and> msg \<noteq> []
           \<and> msg \<in> {''Please fill in all required fields'', ''Age must be between 18 and 100'',
                      ''Number of dependents cannot be negative''}"
  using assms by (auto simp: validationError_def split: option.splits)

lemma splitWords_all_space:
  "\<forall>c\<in>set s. ws c \<Longrightarrow> splitWords ws [] s = []"
  by (induction s) simp_all

lemma dropWhile_Nil_iff: "dropWhile P xs = [] \<longleftrightarrow> (\<forall>x\<in>set xs. P x)"
  by (induction xs) auto

lemma all_dropWhile_iff: "(\<forall>x\<in>set (dropWhile P xs). P x) \<longleftrightarrow> (\<forall>x\<in>set xs. P x)"
  by (induction xs) auto

lemma trim_Nil_iff: "trim s = [] \<longleftrightarrow> (\<forall>c\<in>set s. isSpace c)"
  by (simp add: trim_def dropWhile_Nil_iff all_dropWhile_iff)

lemma firstNumber_None: "\<forall>w\<in>set ws. leadingNumber w = None \<Longrightarrow> firstNumber ws = None"
  by (induction ws) simp_all

lemma lastKeyword_None: "\<forall>w\<in>set ws. map_of kw w = None \<Longrightarrow> lastKeyword kw ws = None"
  by (induction ws) simp_all

lemma example_words:
  "splitWords isSpace [] (ofAscii ''Samosa food'') = [ofAscii ''Samosa'', ofAscii ''food'']"
  "splitWords isSpace [] (ofAscii ''Samosa 30rs'') = [ofAscii ''Samosa'', ofAscii ''30rs'']"
  by code_simp+

lemma example_tokens:
  "leadingNumber (ofAscii ''Samosa'') = None" "leadingNumber (ofAscii ''food'') = None"
  "map_of exampleKeywords (ofAscii ''Samosa'') = None"
  "map_of exampleKeywords (ofAscii ''30rs'') = None"
  "list_all isSpace (ofAscii ''   '')" "trim (ofAscii ''Samosa food'') \<noteq> []"
  "trim [0xA0, 0x20] = []"
  by code_simp+

lemma validRates_rate:
  "validRates rates baseline \<Longrightarrow> 0 \<le> rateOf rates baseline c \<and> rateOf rates baseline c \<le> 1"
  by (cases c) (simp_all add: validRates_def)

lemma savings_bounds:
  assumes "0 \<le> r" "r \<le> 1" "0 \<le> (e::rat)"
  shows "0 \<le> e * r \<and> e * r \<le> e"
  using assms by (simp add: mult_left_le)

lemma totals_sums:
  assumes "validRates rates baseline" "list_all (\<lambda>(c, e). 0 \<le> e) agg"
  shows "0 \<le> sum_list (map (\<lambda>(c, p). potential_savings p) (predictions rates baseline agg))
         \<and> sum_list (map (\<lambda>(c, p). potential_savings p) (predictions rates baseline agg))
           \<le> sum_list (map (\<lambda>(c, p). actual_expense p) (predictions rates baseline agg))"
  using assms(2)
proof (induction agg)
  case Nil
  then show ?case by (simp add: predictions_def)
next
  case (Cons a agg)
  obtain c e where a: "a = (c, e)" by (cases a)
  from Cons.prems a have e: "0 \<le> e" and rest: "list_all (\<lambda>(c, e). 0 \<le> e) agg" by simp_all
  from validRates_rate [OF assms(1), of c] e have "0 \<le> e * rateOf rates baseline c \<and> e * rateOf rates baseline c \<le> e"
    by (intro savings_bounds) simp_all
  with Cons.IH [OF rest] show ?case
    by (simp add: predictions_def a predictCategory_def)
qed

section \<open>Claims\<close>

text \<open>
  C1 (amended). For every list of transactions the keys of the object built by
  the \<open>reduce\<close> are exactly the categories that occur in the list, no
  category twice, and the total stored for a category is the sum of the amounts
  of the transactions of that category, added as doubles in the order of the
  list (a total that has become \<open>NaN\<close> starts again from 0).  When every
  amount is a whole number and the absolute amounts add up to less than
  \<open>2^53\<close>, no addition rounds: the totals of the categories add up to the
  sum of all amounts, which is the exact sum, and the total of a category is
  the exact sum of its amounts.
\<close>

theorem byCategory_totals:
  "set (obj_keys (groupByCategory T)) = category ` set T
   \<and> distinct (obj_keys (groupByCategory T))
   \<and> obj_get (groupByCategory T) c =
       (if c \<in> category ` set T
        then Some (foldl (\<lambda>v a. fadd (if v = NaN then Num 0 else v) a) (Num 0)
                     (map amountOf (filter (\<lambda>t. category t = c) T)))
        else None)
   \<and> ((\<forall>t\<in>set T. amount t \<in> \<int>) \<and> sum_list (map (\<lambda>t. \<bar>amount t\<bar>) T) < 2 ^ 53
        \<longrightarrow> sumValues (obj_values (groupByCategory T)) = sumAmounts T
            \<and> sumAmounts T = Num (sum_list (map amount T))
            \<and> (c \<in> category ` set T
                 \<longrightarrow> obj_get (groupByCategory T) c =
                     Some (Num (sum_list (map amount (filter (\<lambda>t. category t = c) T))))))"
proof (intro conjI impI)
  show "set (obj_keys (groupByCategory T)) = category ` set T"
    by (simp add: groupByCategory_def obj_keys_def foldl_groupStep_keys)
next
  show "distinct (obj_keys (groupByCategory T))"
    by (simp add: groupByCategory_def obj_keys_def foldl_groupStep_distinct)
next
  show "obj_get (groupByCategory T) c =
       (if c \<in> category ` set T
        then Some (foldl (\<lambda>v a. fadd (if v = NaN then Num 0 else v) a) (Num 0)
                     (map amountOf (filter (\<lambda>t. category t = c) T)))
        else None)"
    by (rule groupByCategory_get)
next
  assume h: "(\<forall>t\<in>set T. amount t \<in> \<int>) \<and> sum_list (map (\<lambda>t. \<bar>amount t\<bar>) T) < 2 ^ 53"
  then show "sumValues (obj_values (groupByCategory T)) = sumAmounts T"
    by (simp add: sumValues_groupByCategory_whole sumAmounts_whole)
  from h show "sumAmounts T = Num (sum_list (map amount T))"
    by (simp add: sumAmounts_whole)
  assume "c \<in> category ` set T"
  with h show "obj_get (groupByCategory T) c =
      Some (Num (sum_list (map amount (filter (\<lambda>t. category t = c) T))))"
    by (simp add: groupByCategory_get category_total_whole)
qed

text \<open>
  Witness for C1: three transactions with the whole amounts 100, 30 and 250.
\<close>

theorem byCategory_totals_witness:
  "sumValues (obj_values (groupByCategory [groceries_oct30, samosa_nov01, course_nov03]))
     = sumAmounts [groceries_oct30, samosa_nov01, course_nov03]
   \<and> sumAmounts [groceries_oct30, samosa_nov01, course_nov03] = Num 380
   \<and> obj_get (groupByCategory [groceries_oct30, samosa_nov01, course_nov03]) Groceries
     = Some (Num 100)"
proof -
  let ?T = "[groceries_oct30, samosa_nov01, course_nov03]"
  have h: "(\<forall>t\<in>set ?T. amount t \<in> \<int>) \<and> sum_list (map (\<lambda>t. \<bar>amount t\<bar>) ?T) < 2 ^ 53"
    by (simp add: groceries_oct30_def samosa_nov01_def course_nov03_def)
  have c: "Groceries \<in> category ` set ?T"
    by (simp add: groceries_oct30_def)
  from byCategory_totals [of ?T Groceries] h c
  have "sumValues (obj_values (groupByCategory ?T)) = sumAmounts ?T"
    and "sumAmounts ?T = Num (sum_list (map amount ?T))"
    and "obj_get (groupByCategory ?T) Groceries =
           Some (Num (sum_list (map amount (filter (\<lambda>t. category t = Groceries) ?T))))"
    by blast+
  then show ?thesis
    by (simp add: groceries_oct30_def samosa_nov01_def course_nov03_def)
qed

text \<open>
  Counterexample to C1 as stated: with the amounts 0.1 (Groceries), 0.2 and
  0.3 (Transport) the totals of the categories are the doubles 0.1 and 0.5,
  which add up to the double 0.6, while the sum of all amounts, added in the
  order of the list, is the next double, 0.6000000000000001.
\<close>

theorem category_totals_round_differently:
  "groupByCategory [tea_tenth, bus_fifth, metro_three_tenths]
     = [(Groceries, Num (3602879701896397 / 36028797018963968)), (Transport, Num (1 / 2))]
   \<and> sumValues (obj_values (groupByCategory [tea_tenth, bus_fifth, metro_three_tenths]))
     = Num (5404319552844595 / 9007199254740992)
   \<and> sumAmounts [tea_tenth, bus_fifth, metro_three_tenths]
     = Num (5404319552844596 / 9007199254740992)"
  by code_simp




text \<open>
  C3 (amended). On an empty collection \<open>processTransactionData\<close> of
  \<open>Dashboard.js\<close> returns early and the summary stays what it was, initially
  an empty category object and an empty trend list.  The copy in
  \<open>part_002\<close> stores an empty category object and 7 trend entries with the
  amount 0, one for each date of the window; when the offset of the host's time
  zone is steady over the window, these are the dates of the UTC days
  \<open>today - 6\<close>, ..., \<open>today\<close>.
\<close>

theorem empty_keeps_summary:
  "summaryAfter c [] td s = s
   \<and> byCategory initialSummaryData = []
   \<and> recentTrends initialSummaryData = []
   \<and> byCategory (processTransactionData_part002 c []) = []
   \<and> recentTrends (processTransactionData_part002 c []) =
       map (\<lambda>i. (toISODate (windowDay c i), Num 0)) [6, 5, 4, 3, 2, 1, 0]
   \<and> (steadyOffset c
        \<longrightarrow> recentTrends (processTransactionData_part002 c []) =
            map (\<lambda>d. (toISODate d, Num 0))
                [today c - 6, today c - 5, today c - 4, today c - 3, today c - 2, today c - 1,
                 today c])"
proof (intro conjI impI)
  show "summaryAfter c [] td s = s"
    by (rule summaryAfter_empty)
next
  show "byCategory initialSummaryData = []" "recentTrends initialSummaryData = []"
    by (simp_all add: initialSummaryData_def)
next
  show "byCategory (processTransactionData_part002 c []) = []"
    by (simp add: processTransactionData_part002_def groupByCategory_def)
next
  show "recentTrends (processTransactionData_part002 c []) =
       map (\<lambda>i. (toISODate (windowDay c i), Num 0)) [6, 5, 4, 3, 2, 1, 0]"
    by (simp add: processTransactionData_part002_def calcRecentTrends_window)
next
  assume "steadyOffset c"
  then show "recentTrends (processTransactionData_part002 c []) =
            map (\<lambda>d. (toISODate d, Num 0))
                [today c - 6, today c - 5, today c - 4, today c - 3, today c - 2, today c - 1,
                 today c]"
    by (simp add: processTransactionData_part002_def calcRecentTrends_window windowDay_steady)
qed

text \<open>
  Witness for C3: the copy in \<open>part_002\<close> on a host in India at
  2026-11-01T10:00Z.
\<close>

theorem empty_keeps_summary_witness:
  "recentTrends (processTransactionData_part002 kolkataClock []) =
     [(''2026-10-26'', Num 0), (''2026-10-27'', Num 0), (''2026-10-28'', Num 0),
      (''2026-10-29'', Num 0), (''2026-10-30'', Num 0), (''2026-10-31'', Num 0),
      (''2026-11-01'', Num 0)]"
proof -
  from empty_keeps_summary [of kolkataClock None initialSummaryData] kolkata_week(1)
  have "recentTrends (processTransactionData_part002 kolkataClock []) =
            map (\<lambda>d. (toISODate d, Num 0))
                [today kolkataClock - 6, today kolkataClock - 5, today kolkataClock - 4,
                 today kolkataClock - 3, today kolkataClock - 2, today kolkataClock - 1,
                 today kolkataClock]"
    by blast
  then show ?thesis
    using kolkata_week(3) by (simp add: kolkata_week(2))
qed

text \<open>
  Counterexample to C3 as stated: after the empty collection the trend list of
  \<open>Dashboard.js\<close> has no entry at all, and a summary stored by an earlier
  call keeps its non-empty category object.
\<close>

theorem empty_input_no_seven_zero_entries:
  "recentTrends (summaryAfter kolkataClock [] None initialSummaryData) = []
   \<and> byCategory (summaryAfter kolkataClock [] None
        (summaryAfter kolkataClock [groceries_oct30] None initialSummaryData))
     = [(Groceries, Num 100)]"
  by code_simp

text \<open>
  C4. In the prediction modelled from the spec, with every rate in \<open>[0, 1]\<close>
  and every expense non-negative: each category has
  \<open>0 \<le> potential_savings \<le> actual_expense\<close> and a percentage of
  \<open>100 * potential_savings / actual_expense\<close>, which is 0 when the expense is
  0; the actual expenses are those of the input; and the totals obey the same
  bounds and the same guarded percentage.
\<close>

theorem prediction_savings_bounded:
  assumes "validRates rates baseline" and "list_all (\<lambda>(c, e). 0 \<le> e) agg"
  shows "list_all (\<lambda>(c, p). 0 \<le> potential_savings p
                      \<and> potential_savings p \<le> actual_expense p
                      \<and> savings_percentage p =
                          (if actual_expense p = 0 then 0
                           else 100 * potential_savings p / actual_expense p))
           (predictions rates baseline agg)
         \<and> map (\<lambda>(c, p). (c, actual_expense p)) (predictions rates baseline agg) = agg
         \<and> 0 \<le> total_potential_savings (totals rates baseline agg)
         \<and> total_potential_savings (totals rates baseline agg)
             \<le> total_actual_expenses (totals rates baseline agg)
         \<and> total_savings_percentage (totals rates baseline agg) =
             (if total_actual_expenses (totals rates baseline agg) = 0 then 0
              else 100 * total_potential_savings (totals rates baseline agg)
                   / total_actual_expenses (totals rates baseline agg))"
proof -
  have per: "list_all (\<lambda>(c, p). 0 \<le> potential_savings p
                      \<and> potential_savings p \<le> actual_expense p
                      \<and> savings_percentage p =
                          (if actual_expense p = 0 then 0
                           else 100 * potential_savings p / actual_expense p))
           (predictions rates baseline agg)"
    using assms(2)
  proof (induction agg)
    case Nil
    then show ?case by (simp add: predictions_def)
  next
    case (Cons a agg)
    obtain c e where a: "a = (c, e)" by (cases a)
    from Cons.prems a have e: "0 \<le> e" and rest: "list_all (\<lambda>(c, e). 0 \<le> e) agg" by simp_all
    from validRates_rate [OF assms(1), of c] e
    have "0 \<le> e * rateOf rates baseline c \<and> e * rateOf rates baseline c \<le> e"
      by (intro savings_bounds) simp_all
    with Cons.IH [OF rest] show ?case
      by (simp add: predictions_def a predictCategory_def savingsPercentage_def)
  qed
  have keys: "map (\<lambda>(c, p). (c, actual_expense p)) (predictions rates baseline agg) = agg"
    by (induction agg) (auto simp: predictions_def predictCategory_def)
  from totals_sums [OF assms] per keys show ?thesis
    by (simp add: totals_def Let_def savingsPercentage_def)
qed

text \<open>
  Witness for C4: the scenario of the spec, Groceries 150 at the rate 0.20, and a
  category with the expense 0.
\<close>

theorem prediction_savings_bounded_witness:
  "predictions exampleRates (1 / 10) [(Groceries, 150), (Transport, 0)]
     = [(Groceries, \<lparr>actual_expense = 150, potential_savings = 30, savings_percentage = 20\<rparr>),
        (Transport, \<lparr>actual_expense = 0, potential_savings = 0, savings_percentage = 0\<rparr>)]
   \<and> totals exampleRates (1 / 10) [(Groceries, 150), (Transport, 0)]
     = \<lparr>total_actual_expenses = 150, total_potential_savings = 30, total_savings_percentage = 20\<rparr>
   \<and> 0 \<le> total_potential_savings (totals exampleRates (1 / 10) [(Groceries, 150), (Transport, 0)])"
proof -
  have v: "validRates exampleRates (1 / 10)"
    by (simp add: validRates_def rateOf_def exampleRates_def)
  have n: "list_all (\<lambda>(c, e). 0 \<le> e) [(Groceries, 150), (Transport, 0 :: rat)]"
    by simp
  have p: "predictions exampleRates (1 / 10) [(Groceries, 150), (Transport, 0)]
     = [(Groceries, \<lparr>actual_expense = 150, potential_savings = 30, savings_percentage = 20\<rparr>),
        (Transport, \<lparr>actual_expense = 0, potential_savings = 0, savings_percentage = 0\<rparr>)]"
    by (simp add: predictions_def predictCategory_def rateOf_def exampleRates_def
        savingsPercentage_def)
  have t: "totals exampleRates (1 / 10) [(Groceries, 150), (Transport, 0)]
     = \<lparr>total_actual_expenses = 150, total_potential_savings = 30, total_savings_percentage = 20\<rparr>"
    by (simp add: totals_def p savingsPercentage_def)
  from prediction_savings_bounded [OF v n] p t show ?thesis
    by simp
qed

text \<open>
  C5. With the default of 3 attempts \<open>fetchWithRetry\<close> returns the response
  of the first attempt that succeeds, having waited 1000 ms after the first
  failure and 2000 ms after the second; when the third attempt fails as well, it
  throws the error of that attempt without a further wait.  No fourth attempt is
  made.
\<close>

theorem fetchWithRetry_three_attempts:
  "fetchWithRetry get defaultMaxRetries =
     (case get 0 of
        Inr r \<Rightarrow> (Returned r, [])
      | Inl e1 \<Rightarrow>
          (case get 1 of
             Inr r \<Rightarrow> (Returned r, [1000])
           | Inl e2 \<Rightarrow>
               (case get 2 of
                  Inr r \<Rightarrow> (Returned r, [1000, 2000])
                | Inl e3 \<Rightarrow> (Thrown e3, [1000, 2000]))))"
proof (cases "get 0")
  case (Inr r)
  then have "fetchLoop get 3 0 [] = (Returned r, [] @ map (\<lambda>n. 1000 * n) [0 + 1 ..< 0 + 0 + 1])"
    by (intro fetchLoop_success) simp_all
  with Inr show ?thesis
    by (simp add: fetchWithRetry_def defaultMaxRetries_def)
next
  case e1: (Inl e1)
  show ?thesis
  proof (cases "get 1")
    case (Inr r)
    have "\<forall>j<1. isl (get (0 + j))"
      using e1 by simp
    then have "fetchLoop get 3 0 [] = (Returned r, [] @ map (\<lambda>n. 1000 * n) [0 + 1 ..< 0 + 1 + 1])"
      using Inr by (intro fetchLoop_success) simp_all
    with e1 Inr show ?thesis
      by (simp add: fetchWithRetry_def defaultMaxRetries_def)
  next
    case e2: (Inl e2)
    have fails: "\<forall>j<2. isl (get (0 + j))"
      using e1 e2 by (simp add: less_Suc_eq numeral_2_eq_2)
    show ?thesis
    proof (cases "get 2")
      case (Inr r)
      have lt: "0 + 2 < (3::nat)" by simp
      have g2: "get (0 + 2) = Inr r" using Inr by (simp add: numeral_2_eq_2)
      have "fetchLoop get 3 0 [] = (Returned r, [] @ map (\<lambda>n. 1000 * n) [0 + 1 ..< 0 + 2 + 1])"
        by (rule fetchLoop_success [OF lt fails g2])
      moreover have "[1 ..< 3] = [1, 2 :: nat]"
        by (simp add: upt_rec)
      ultimately show ?thesis
        using e1 e2 Inr by (simp add: fetchWithRetry_def defaultMaxRetries_def)
    next
      case e3: (Inl e3)
      have "\<forall>j. 0 \<le> j \<and> j < 3 \<longrightarrow> isl (get j)"
        using e1 e2 e3 by (simp add: less_Suc_eq numeral_3_eq_3 numeral_2_eq_2)
      then have "fetchLoop get 3 0 []
          = (Thrown (projl (get (3 - 1))), [] @ map (\<lambda>n. 1000 * n) [0 + 1 ..< 3])"
        by (intro fetchLoop_failure) simp_all
      moreover have "[1 ..< 3] = [1, 2 :: nat]"
        by (simp add: upt_rec)
      ultimately show ?thesis
        using e1 e2 e3 by (simp add: fetchWithRetry_def defaultMaxRetries_def)
    qed
  qed
qed

text \<open>
  C6. When the age is missing or outside \<open>[18, 100]\<close>, the number of
  dependents is negative or the occupation is missing, \<open>handleSubmit\<close> sets
  one of its three validation messages and sends no request: the backend's
  store is unchanged, whatever the backend would do with the request.
\<close>

theorem invalid_profile_not_stored:
  assumes "age (formData st) = None
           \<or> (\<exists>a. age (formData st) = Some a \<and> (a < 18 \<or> 100 < a))
           \<or> (\<exists>n. dependents (formData st) = Some n \<and> n < 0)
           \<or> occupation (formData st) = []"
  shows "snd (handleSubmit post userId st store) = store
         \<and> error (fst (handleSubmit post userId st store))
             \<in> {Some ''Please fill in all required fields'',
                 Some ''Age must be between 18 and 100'',
                 Some ''Number of dependents cannot be negative''}
         \<and> success (fst (handleSubmit post userId st store)) = success st
         \<and> formData (fst (handleSubmit post userId st store)) = formData st"
proof -
  from validationError_Some [OF assms] obtain msg where
    m: "validationError (formData st) = Some msg" "msg \<noteq> []"
       "msg \<in> {''Please fill in all required fields'', ''Age must be between 18 and 100'',
                ''Number of dependents cannot be negative''}"
    by blast
  then show ?thesis
    by (auto simp: handleSubmit_def messageOr_def Let_def)
qed

text \<open>
  Witness for C6: the age 15, with a backend that would store every profile it
  is sent.
\<close>

theorem invalid_profile_not_stored_witness:
  "handleSubmit (\<lambda>p store. (None, p # store)) ''user123''
     \<lparr>formData = \<lparr>age = Some 15, dependents = Some 0, occupation = ''Student''\<rparr>,
      saving = False, error = None, success = False\<rparr> []
   = (\<lparr>formData = \<lparr>age = Some 15, dependents = Some 0, occupation = ''Student''\<rparr>,
       saving = False, error = Some ''Age must be between 18 and 100'', success = False\<rparr>, [])"
proof -
  let ?st = "\<lparr>formData = \<lparr>age = Some 15, dependents = Some 0, occupation = ''Student''\<rparr>,
      saving = False, error = None, success = False\<rparr>"
  have "age (formData ?st) = None
           \<or> (\<exists>a. age (formData ?st) = Some a \<and> (a < 18 \<or> 100 < a))
           \<or> (\<exists>n. dependents (formData ?st) = Some n \<and> n < 0)
           \<or> occupation (formData ?st) = []"
    by simp
  from invalid_profile_not_stored [OF this, of "\<lambda>p store. (None, p # store)" "''user123''" "[]"]
  have "snd (handleSubmit (\<lambda>p store. (None, p # store)) ''user123'' ?st []) = []"
    by blast
  moreover have "fst (handleSubmit (\<lambda>p store. (None, p # store)) ''user123'' ?st [])
       = \<lparr>formData = \<lparr>age = Some 15, dependents = Some 0, occupation = ''Student''\<rparr>,
       saving = False, error = Some ''Age must be between 18 and 100'', success = False\<rparr>"
    by (simp add: handleSubmit_def validationError_def messageOr_def Let_def)
  ultimately show ?thesis
    by (simp add: prod_eq_iff)
qed

text \<open>
  C7. The parser modelled from the spec fails with \<open>ParseError\<close> on a text
  that is empty or made of white space only, on a text without a number and on
  a text without a keyword.  In \<open>parseTransactionText\<close> a failed parse only
  sets the error message, the form is left for manual entry; an input that
  \<open>trim\<close> empties, which is one made only of the white space and the line
  terminators of the language, is not sent to the parser at all and changes
  nothing.
\<close>

theorem quick_entry_failures:
  "((\<forall>c\<in>set text. ws c) \<longrightarrow> parse_transaction ws kw text = Inl ParseError)
   \<and> ((\<forall>w\<in>set (splitWords ws [] text). leadingNumber w = None)
        \<longrightarrow> parse_transaction ws kw text = Inl ParseError)
   \<and> ((\<forall>w\<in>set (splitWords ws [] text). map_of kw w = None)
        \<longrightarrow> parse_transaction ws kw text = Inl ParseError)
   \<and> (trim (quickInput st) \<noteq> [] \<and> api (quickInput st) = Inl e
        \<longrightarrow> parseTransactionText api st = st\<lparr>txError := Some parseErrorMessage\<rparr>)
   \<and> (trim (quickInput st) = [] \<longrightarrow> parseTransactionText api st = st)
   \<and> (trim (quickInput st) = []) = list_all isSpace (quickInput st)"
proof (intro conjI impI)
  assume "\<forall>c\<in>set text. ws c"
  then show "parse_transaction ws kw text = Inl ParseError"
    by (simp add: parse_transaction_def splitWords_all_space)
next
  assume "\<forall>w\<in>set (splitWords ws [] text). leadingNumber w = None"
  then show "parse_transaction ws kw text = Inl ParseError"
    by (simp add: parse_transaction_def firstNumber_None Let_def)
next
  assume "\<forall>w\<in>set (splitWords ws [] text). map_of kw w = None"
  then show "parse_transaction ws kw text = Inl ParseError"
    by (simp add: parse_transaction_def lastKeyword_None Let_def split: option.splits)
next
  assume "trim (quickInput st) \<noteq> [] \<and> api (quickInput st) = Inl e"
  then show "parseTransactionText api st = st\<lparr>txError := Some parseErrorMessage\<rparr>"
    by (simp add: parseTransactionText_def)
next
  assume "trim (quickInput st) = []"
  then show "parseTransactionText api st = st"
    by (simp add: parseTransactionText_def)
next
  show "(trim (quickInput st) = []) = list_all isSpace (quickInput st)"
    by (simp add: trim_Nil_iff list_all_iff)
qed

text \<open>
  Witness for C7: a text of three spaces, a text without a number and a text
  without a keyword, with the keywords \<open>food\<close> and \<open>medical\<close> and a
  backend that splits at the white space of the language; and an input made
  of a no-break space and a space, which \<open>trim\<close> empties.
\<close>

theorem quick_entry_failures_witness:
  "parse_transaction isSpace exampleKeywords (ofAscii ''   '') = Inl ParseError
   \<and> parse_transaction isSpace exampleKeywords (ofAscii ''Samosa food'') = Inl ParseError
   \<and> parse_transaction isSpace exampleKeywords (ofAscii ''Samosa 30rs'') = Inl ParseError
   \<and> parseTransactionText (parse_transaction isSpace exampleKeywords) exampleFormState
       = exampleFormState\<lparr>txError := Some parseErrorMessage\<rparr>
   \<and> parseTransactionText (parse_transaction isSpace exampleKeywords)
         (exampleFormState\<lparr>quickInput := [0xA0, 0x20]\<rparr>)
       = exampleFormState\<lparr>quickInput := [0xA0, 0x20]\<rparr>"
proof -
  note blank = quick_entry_failures [of "ofAscii ''   ''" isSpace exampleKeywords
      "exampleFormState\<lparr>quickInput := [0xA0, 0x20]\<rparr>"
      "parse_transaction isSpace exampleKeywords" ParseError]
  note nonum = quick_entry_failures [of "ofAscii ''Samosa food''" isSpace exampleKeywords
      exampleFormState "parse_transaction isSpace exampleKeywords" ParseError]
  note nokey = quick_entry_failures [of "ofAscii ''Samosa 30rs''" isSpace exampleKeywords
      exampleFormState "parse_transaction isSpace exampleKeywords" ParseError]
  have h1: "\<forall>c\<in>set (ofAscii ''   ''). isSpace c"
    using example_tokens(5) by (simp only: list_all_iff)
  have h2: "\<forall>w\<in>set (splitWords isSpace [] (ofAscii ''Samosa food'')). leadingNumber w = None"
    unfolding example_words using example_tokens by simp
  have h3: "\<forall>w\<in>set (splitWords isSpace [] (ofAscii ''Samosa 30rs'')).
              map_of exampleKeywords w = None"
    unfolding example_words using example_tokens by simp
  have p1: "parse_transaction isSpace exampleKeywords (ofAscii ''   '') = Inl ParseError"
    using blank h1 by blast
  have p2: "parse_transaction isSpace exampleKeywords (ofAscii ''Samosa food'') = Inl ParseError"
    using nonum h2 by blast
  have p3: "parse_transaction isSpace exampleKeywords (ofAscii ''Samosa 30rs'') = Inl ParseError"
    using nokey h3 by blast
  have q: "quickInput exampleFormState = ofAscii ''Samosa food''"
    by (simp add: exampleFormState_def)
  have h4: "trim (quickInput exampleFormState) \<noteq> []
       \<and> parse_transaction isSpace exampleKeywords (quickInput exampleFormState) = Inl ParseError"
    unfolding q using p2 example_tokens(6) by simp
  have p4: "parseTransactionText (parse_transaction isSpace exampleKeywords) exampleFormState
       = exampleFormState\<lparr>txError := Some parseErrorMessage\<rparr>"
    using nonum h4 by blast
  have h5: "trim (quickInput (exampleFormState\<lparr>quickInput := [0xA0, 0x20]\<rparr>)) = []"
    using example_tokens(7) by simp
  have p5: "parseTransactionText (parse_transaction isSpace exampleKeywords)
         (exampleFormState\<lparr>quickInput := [0xA0, 0x20]\<rparr>)
       = exampleFormState\<lparr>quickInput := [0xA0, 0x20]\<rparr>"
    using blank h5 by blast
  from p1 p2 p3 p4 p5 show ?thesis by simp
qed







text \<open>
  C10. The average on the card is the sum of the amounts, added as doubles from
  0 in the order of the list, divided by the number of the transactions, or by
  1 when there is none.  The divisor is never 0, so the division takes none of
  the branches of a division by zero: a finite sum gives the rounded quotient,
  and the other sums give themselves.  The empty list has the average 0.  When
  every amount is a whole number and the absolute amounts add up to less than
  \<open>2^53\<close>, the average is the exact sum of the amounts divided by that
  number, rounded once.
\<close>

theorem averageTransaction_guarded:
  "averageTransaction ts =
     fdiv (foldl (\<lambda>sum t. fadd sum (amountOf t)) (Num 0) ts)
          (Num (of_nat (max (length ts) 1)))
   \<and> (of_nat (max (length ts) 1) :: rat) \<noteq> 0
   \<and> averageTransaction ts =
       (case foldl (\<lambda>sum t. fadd sum (amountOf t)) (Num 0) ts of
          Num a \<Rightarrow> roundDouble (a / of_nat (max (length ts) 1))
        | NaN \<Rightarrow> NaN
        | PosInfinity \<Rightarrow> PosInfinity
        | NegInfinity \<Rightarrow> NegInfinity)
   \<and> averageTransaction [] = Num 0
   \<and> ((\<forall>t\<in>set ts. amount t \<in> \<int>) \<and> sum_list (map (\<lambda>t. \<bar>amount t\<bar>) ts) < 2 ^ 53
        \<longrightarrow> averageTransaction ts =
            roundDouble (sum_list (map amount ts) / of_nat (max (length ts) 1)))"
proof -
  have m: "(if length ts = 0 then 1 else length ts) = max (length ts) 1"
    by (cases ts) simp_all
  have nz: "(of_nat (max (length ts) 1) :: rat) \<noteq> 0"
    by (cases ts) simp_all
  have a: "averageTransaction ts =
     fdiv (foldl (\<lambda>sum t. fadd sum (amountOf t)) (Num 0) ts)
          (Num (of_nat (max (length ts) 1)))"
    unfolding averageTransaction_def sumAmounts_def m ..
  have b: "averageTransaction ts =
       (case foldl (\<lambda>sum t. fadd sum (amountOf t)) (Num 0) ts of
          Num a \<Rightarrow> roundDouble (a / of_nat (max (length ts) 1))
        | NaN \<Rightarrow> NaN
        | PosInfinity \<Rightarrow> PosInfinity
        | NegInfinity \<Rightarrow> NegInfinity)"
    unfolding a using nz
    by (cases "foldl (\<lambda>sum t. fadd sum (amountOf t)) (Num 0) ts") simp_all
  have c: "averageTransaction [] = Num 0"
    by (simp add: averageTransaction_def sumAmounts_def roundDouble_def)
  have d: "averageTransaction ts =
            roundDouble (sum_list (map amount ts) / of_nat (max (length ts) 1))"
    if "(\<forall>t\<in>set ts. amount t \<in> \<int>) \<and> sum_list (map (\<lambda>t. \<bar>amount t\<bar>) ts) < 2 ^ 53"
  proof -
    from that have "sumAmounts ts = Num (sum_list (map amount ts))"
      by (intro sumAmounts_whole) blast+
    then have "foldl (\<lambda>sum t. fadd sum (amountOf t)) (Num 0) ts = Num (sum_list (map amount ts))"
      by (simp add: sumAmounts_def)
    with b show ?thesis
      by simp
  qed
  from a nz b c d show ?thesis by blast
qed

text \<open>
  Witness for C10: the amounts 100, 30 and 250 have the average 380 / 3, which
  is rounded to the double 126.66666666666667.
\<close>

theorem averageTransaction_guarded_witness:
  "averageTransaction [groceries_oct30, samosa_nov01, course_nov03]
     = Num (8913374262504107 / 70368744177664)"
proof -
  let ?T = "[groceries_oct30, samosa_nov01, course_nov03]"
  have h: "(\<forall>t\<in>set ?T. amount t \<in> \<int>) \<and> sum_list (map (\<lambda>t. \<bar>amount t\<bar>) ?T) < 2 ^ 53"
    by (simp add: groceries_oct30_def samosa_nov01_def course_nov03_def)
  with averageTransaction_guarded [of ?T]
  have "averageTransaction ?T = roundDouble (sum_list (map amount ?T) / of_nat (max (length ?T) 1))"
    by blast
  moreover have "sum_list (map amount ?T) / of_nat (max (length ?T) 1) = (380 / 3 :: rat)"
    by (simp add: groceries_oct30_def samosa_nov01_def course_nov03_def)
  moreover have "roundDouble (380 / 3) = Num (8913374262504107 / 70368744177664)"
    by code_simp
  ultimately show ?thesis
    by (simp only:)
qed

end
